theory Spec2Isabelle
  imports Main
begin

unbundle bit_operations_syntax

section \<open>Reference identity codec (internal/graph/model/common.go)\<close>

text \<open>
  Go strings and byte slices are sequences of bytes; a byte is a \<^typ>\<open>char\<close> and a Go
  \<open>string\<close> is a \<^typ>\<open>string\<close>. The unsigned machine words the base64 routines assemble
  never exceed 24 bits, so Go's \<open>uint\<close> is read as \<^typ>\<open>nat\<close> with the shifts and masks
  of the code kept as they are written.
\<close>

subsection \<open>encoding/base64, RawStdEncoding\<close>

text \<open>
  \<open>base64.RawStdEncoding\<close> is the standard alphabet without padding and without strict
  mode. \<open>encode\<close> is the \<open>[64]byte\<close> table of the encoding, \<open>decodeMap\<close> the \<open>[256]uint8\<close>
  table that \<open>NewEncoding\<close> fills: every entry starts as \<open>0xFF\<close> and entry
  \<open>encoder[i]\<close> is set to \<open>i\<close>.
\<close>

definition encodeStd :: string where
  "encodeStd = ''ABCDEFGHIJKLMNOPQRSTUVWXYZabcdefghijklmnopqrstuvwxyz0123456789+/''"

definition encode :: "nat \<Rightarrow> char" where
  "encode i = encodeStd ! i"

definition decodeMap :: "char \<Rightarrow> nat" where
  "decodeMap = fold (\<lambda>i m. m(encodeStd ! i := i)) [0..<length encodeStd] (\<lambda>_. 0xFF)"

text \<open>
  \<open>Encoding.Encode\<close>: three source bytes become four symbols; a remainder of two bytes
  becomes three symbols and a remainder of one byte two symbols (no padding character is
  written since \<open>padChar = NoPadding\<close>).
\<close>

fun Encode :: "char list \<Rightarrow> char list" where
  "Encode (a # b # c # src) =
     (let val = push_bit 16 (of_char a) OR push_bit 8 (of_char b) OR of_char c
      in encode (drop_bit 18 val AND 0x3F) # encode (drop_bit 12 val AND 0x3F) #
         encode (drop_bit 6 val AND 0x3F) # encode (val AND 0x3F) # Encode src)"
| "Encode [a, b] =
     (let val = push_bit 16 (of_char a) OR push_bit 8 (of_char b)
      in [encode (drop_bit 18 val AND 0x3F), encode (drop_bit 12 val AND 0x3F),
          encode (drop_bit 6 val AND 0x3F)])"
| "Encode [a] =
     (let val = push_bit 16 (of_char a)
      in [encode (drop_bit 18 val AND 0x3F), encode (drop_bit 12 val AND 0x3F)])"
| "Encode [] = []"

definition EncodeToString :: "char list \<Rightarrow> string" where
  "EncodeToString src = Encode src"

text \<open>
  Errors are values of github.com/pkg/errors: \<open>errors.New msg\<close>, and \<open>errors.Wrap err msg\<close>
  around a non-nil cause (wrapping \<open>nil\<close> gives \<open>nil\<close>, so \<open>Wrap\<close> only occurs on a failing
  path). \<open>CorruptInputError\<close> is the error of encoding/base64 and carries the offset of
  the offending input byte. \<open>RuntimePanic\<close> is not an error value of the program: it is
  how a run-time panic (a slice index out of range) shows in a result. A function that
  returns \<open>(value, error)\<close> returns \<open>Inr value\<close> or \<open>Inl error\<close>.
\<close>

datatype error = New string | Wrap error string | CorruptInputError nat | RuntimePanic

text \<open>
  The tail of \<open>decodeQuantum\<close>: the four 6-bit values of \<open>dbuf\<close> are packed into one word
  and the first \<open>dlen - 1\<close> of its three bytes are written to the destination.
\<close>

definition assemble :: "nat \<Rightarrow> nat list \<Rightarrow> char list" where
  "assemble dlen dbuf =
     (let val = push_bit 18 (dbuf ! 0) OR push_bit 12 (dbuf ! 1) OR push_bit 6 (dbuf ! 2) OR dbuf ! 3;
          b2 = char_of val; b1 = char_of (drop_bit 8 val); b0 = char_of (drop_bit 16 val)
      in if dlen = 4 then [b0, b1, b2]
         else if dlen = 3 then [b0, b1]
         else if dlen = 2 then [b0]
         else [])"

text \<open>
  The loop of \<open>decodeQuantum\<close> from position \<open>j\<close> of \<open>dbuf\<close>, on the unread input \<open>src[si:]\<close>.
  A symbol of the alphabet fills \<open>dbuf[j]\<close>; a line feed or carriage return is skipped;
  any other byte is corrupt input (with \<open>NoPadding\<close> no byte equals the padding
  character). At the end of the input nothing read is fine, one symbol read is corrupt
  input, and two or three symbols give a short quantum. The result is the bytes written,
  the unread input and the new offset.
\<close>

fun decodeLoop :: "nat \<Rightarrow> nat list \<Rightarrow> char list \<Rightarrow> nat \<Rightarrow> error + (char list \<times> char list \<times> nat)" where
  "decodeLoop j dbuf [] si =
     (if j = 0 then Inr ([], [], si)
      else if j = 1 then Inl (CorruptInputError (si - j))
      else Inr (assemble j dbuf, [], si))"
| "decodeLoop j dbuf (c # src) si =
     (if 4 \<le> j then Inr (assemble 4 dbuf, c # src, si)
      else let out = decodeMap c
           in if out \<noteq> 0xFF then decodeLoop (j + 1) (dbuf[j := out]) src (si + 1)
              else if c = CHR 0x0A \<or> c = CHR 0x0D then decodeLoop j dbuf src (si + 1)
              else Inl (CorruptInputError si))"

definition decodeQuantum :: "char list \<Rightarrow> nat \<Rightarrow> error + (char list \<times> char list \<times> nat)" where
  "decodeQuantum src si = decodeLoop 0 [0, 0, 0, 0] src si"

lemma decodeLoop_length:
  "decodeLoop j dbuf src si = Inr (out, rest, nsi) \<Longrightarrow>
     length rest \<le> length src \<and> (j < 4 \<and> src \<noteq> [] \<longrightarrow> length rest < length src)"
proof (induction j dbuf src si rule: decodeLoop.induct)
  case (1 j dbuf si)
  then show ?case by (simp split: if_splits)
next
  case (2 j dbuf c src si)
  show ?case
  proof (cases "4 \<le> j")
    case True
    with 2 show ?thesis by simp
  next
    case False
    with 2 show ?thesis
      by (fastforce simp: Let_def split: if_splits)
  qed
qed

text \<open>
  \<open>Encoding.Decode\<close> calls \<open>decodeQuantum\<close> until the input is used up and stops at the
  first error. (The code's 8- and 4-symbol fast paths compute what \<open>decodeQuantum\<close>
  computes on symbols of the alphabet and defer to it otherwise.)
\<close>

function Decode :: "char list \<Rightarrow> nat \<Rightarrow> error + char list" where
  "Decode src si =
     (if src = [] then Inr []
      else case decodeQuantum src si of
             Inl err \<Rightarrow> Inl err
           | Inr (out, rest, nsi) \<Rightarrow>
               (case Decode rest nsi of Inl err \<Rightarrow> Inl err | Inr more \<Rightarrow> Inr (out @ more)))"
  by pat_completeness auto
termination
proof (relation "measure (\<lambda>(src, si). length src)")
  show "wf (measure (\<lambda>(src, si). length src))" by simp
next
  fix src :: "char list" and si x2 x y xa ya
  assume "src \<noteq> []" and "decodeQuantum src si = Inr x2" and "(x, y) = x2" and "(xa, ya) = y"
  then have "decodeLoop 0 [0, 0, 0, 0] src si = Inr (x, xa, ya)"
    by (simp add: decodeQuantum_def)
  from decodeLoop_length[OF this] \<open>src \<noteq> []\<close>
  show "((xa, ya), src, si) \<in> measure (\<lambda>(src, si). length src)" by simp
qed

definition DecodeString :: "string \<Rightarrow> error + char list" where
  "DecodeString s = Decode s 0"

subsection \<open>strings.Split on the one-byte separator\<close>

text \<open>
  \<open>strings.Index\<close> and \<open>strings.Split\<close> for a separator of one byte: \<open>Split\<close> cuts at the
  first separator as long as there is one and ends with what is left.
\<close>

fun Index :: "string \<Rightarrow> char \<Rightarrow> nat option" where
  "Index [] c = None"
| "Index (x # xs) c = (if x = c then Some 0 else map_option Suc (Index xs c))"

lemma Index_Some_less: "Index s c = Some m \<Longrightarrow> m < length s"
  by (induction s arbitrary: m) (auto split: if_splits)

function Split :: "string \<Rightarrow> char \<Rightarrow> string list" where
  "Split s c = (case Index s c of None \<Rightarrow> [s] | Some m \<Rightarrow> take m s # Split (drop (m + 1) s) c)"
  by pat_completeness auto
termination
  by (relation "measure (\<lambda>(s, c). length s)") (auto dest: Index_Some_less)

declare Decode.simps [simp del]
declare Split.simps [simp del]

definition at_index :: "'a list \<Rightarrow> nat \<Rightarrow> error + 'a" where
  "at_index xs i = (if i < length xs then Inr (xs ! i) else Inl RuntimePanic)"

subsection \<open>ReferenceID\<close>

definition sep :: char where
  "sep = CHR ''|''"

definition errDecode :: string where
  "errDecode = ''cannot decode id''"

definition errMalformed :: string where
  "errMalformed = ''malformed id''"

record ReferenceID =
  APIVersion :: string
  Kind :: string
  Namespace :: string
  Name :: string

definition ParseReferenceID :: "string \<Rightarrow> error + ReferenceID" where
  "ParseReferenceID s =
     (case DecodeString s of
        Inl err \<Rightarrow> Inl (Wrap err errDecode)
      | Inr b \<Rightarrow>
          (let parts = Split b sep
           in if length parts \<noteq> 4 then Inl (New errMalformed)
              else case at_index parts 0 of Inl p \<Rightarrow> Inl p | Inr p0 \<Rightarrow>
                   case at_index parts 1 of Inl p \<Rightarrow> Inl p | Inr p1 \<Rightarrow>
                   case at_index parts 2 of Inl p \<Rightarrow> Inl p | Inr p2 \<Rightarrow>
                   case at_index parts 3 of Inl p \<Rightarrow> Inl p | Inr p3 \<Rightarrow>
                   Inr \<lparr>APIVersion = p0, Kind = p1, Namespace = p2, Name = p3\<rparr>))"

definition String :: "ReferenceID \<Rightarrow> string" where
  "String rid =
     EncodeToString (APIVersion rid @ [sep] @ Kind rid @ [sep] @ Namespace rid @ [sep] @ Name rid)"

text \<open>
  What the decoder accepts, said without the decoder: once line feeds and carriage
  returns are dropped, every byte is a symbol of the alphabet and the number of symbols
  is not 1 modulo 4.
\<close>

definition valid_raw_std :: "string \<Rightarrow> bool" where
  "valid_raw_std s =
     (let t = filter (\<lambda>c. c \<noteq> CHR 0x0A \<and> c \<noteq> CHR 0x0D) s
      in list_all (\<lambda>c. c \<in> set encodeStd) t \<and> length t mod 4 \<noteq> 1)"

section \<open>Output shapes (package model)\<close>

text \<open>
  An \<open>Unstructured\<close> object is modelled by the content of its \<open>Object\<close> map at the paths the
  code reads through getters; the rest of the map is the extension part of the record.
  The first four paths are read by the getters of \<open>kunstructured.Unstructured\<close>, the others
  by the getters of the \<open>unstructured.Composite\<close> view of the same object. A slice that may
  be \<open>nil\<close> is a list option, a pointer an option.
\<close>

typedecl ObjectReference
typedecl SecretReference
type_synonym Time = int

record xpv1_Condition =
  Type :: string
  Status :: string
  LastTransitionTime :: Time
  Reason :: string
  Message :: string

record Unstructured =
  apiVersion :: string
  kind :: string
  metadata_namespace :: string
  metadata_name :: string
  spec_compositionSelector :: "(string \<rightharpoonup> string) option"
  spec_compositionRef :: "ObjectReference option"
  spec_claimRef :: "ObjectReference option"
  spec_resourceRefs :: "ObjectReference list option"
  spec_writeConnectionSecretToRef :: "SecretReference option"
  status_conditions :: "xpv1_Condition list option"
  status_connectionDetails_lastPublishedTime :: "Time option"

definition GetAPIVersion :: "'a Unstructured_scheme \<Rightarrow> string" where
  "GetAPIVersion u = apiVersion u"

definition GetKind :: "'a Unstructured_scheme \<Rightarrow> string" where
  "GetKind u = kind u"

definition GetNamespace :: "'a Unstructured_scheme \<Rightarrow> string" where
  "GetNamespace u = metadata_namespace u"

definition GetName :: "'a Unstructured_scheme \<Rightarrow> string" where
  "GetName u = metadata_name u"

subsection \<open>Group, version and kind (k8s.io/apimachinery/pkg/runtime/schema)\<close>

record GroupVersion =
  Group :: string
  Version :: string

record GroupVersionKind = GroupVersion +
  Kind :: string

definition empty_GroupVersion :: GroupVersion where
  "empty_GroupVersion = \<lparr>Group = [], Version = []\<rparr>"

definition WithKind :: "GroupVersion \<Rightarrow> string \<Rightarrow> GroupVersionKind" where
  "WithKind gv k = \<lparr>Group = Group gv, Version = Version gv, Kind = k\<rparr>"

text \<open>
  \<open>schema.ParseGroupVersion\<close>: the empty string and \<open>"/"\<close> give the empty group and version,
  a string without a slash is a version, a string with one slash is group and version,
  and more slashes are an error.
\<close>

definition ParseGroupVersion :: "string \<Rightarrow> error + GroupVersion" where
  "ParseGroupVersion gv =
     (if length gv = 0 \<or> gv = ''/'' then Inr empty_GroupVersion
      else if count_list gv CHR ''/'' = 0 then Inr \<lparr>Group = [], Version = gv\<rparr>
      else if count_list gv CHR ''/'' = 1 then
        (case Index gv CHR ''/'' of
           None \<Rightarrow> Inl RuntimePanic \<comment> \<open>\<open>gv[:-1]\<close>; not reached, there is a slash\<close>
         | Some i \<Rightarrow> Inr \<lparr>Group = take i gv, Version = drop (i + 1) gv\<rparr>)
      else Inl (New (''unexpected GroupVersion string: '' @ gv)))"

definition FromAPIVersionAndKind :: "string \<Rightarrow> string \<Rightarrow> GroupVersionKind" where
  "FromAPIVersionAndKind av k =
     (case ParseGroupVersion av of
        Inr gv \<Rightarrow> WithKind gv k
      | Inl err \<Rightarrow> WithKind empty_GroupVersion k)"

text \<open>\<open>Unstructured.GroupVersionKind\<close>: the empty value when the apiVersion does not parse.\<close>

definition GroupVersionKind :: "'a Unstructured_scheme \<Rightarrow> GroupVersionKind" where
  "GroupVersionKind u =
     (case ParseGroupVersion (GetAPIVersion u) of
        Inl err \<Rightarrow> WithKind empty_GroupVersion []
      | Inr gv \<Rightarrow> WithKind gv (GetKind u))"

text \<open>The group, version and kinds that the Crossplane API packages declare.\<close>

definition pkgv1_Group :: string where
  "pkgv1_Group = ''pkg.crossplane.io''"

definition extv1_Group :: string where
  "extv1_Group = ''apiextensions.crossplane.io''"

definition extv1_CompositeResourceDefinitionKind :: string where
  "extv1_CompositeResourceDefinitionKind = ''CompositeResourceDefinition''"

definition extv1_CompositionKind :: string where
  "extv1_CompositionKind = ''Composition''"

definition ProviderGroupVersionKind :: GroupVersionKind where
  "ProviderGroupVersionKind = \<lparr>Group = pkgv1_Group, Version = ''v1'', Kind = ''Provider''\<rparr>"

definition ProviderRevisionGroupVersionKind :: GroupVersionKind where
  "ProviderRevisionGroupVersionKind = \<lparr>Group = pkgv1_Group, Version = ''v1'', Kind = ''ProviderRevision''\<rparr>"

definition ConfigurationGroupVersionKind :: GroupVersionKind where
  "ConfigurationGroupVersionKind = \<lparr>Group = pkgv1_Group, Version = ''v1'', Kind = ''Configuration''\<rparr>"

definition ConfigurationRevisionGroupVersionKind :: GroupVersionKind where
  "ConfigurationRevisionGroupVersionKind =
     \<lparr>Group = pkgv1_Group, Version = ''v1'', Kind = ''ConfigurationRevision''\<rparr>"

definition CompositeResourceDefinitionGroupVersionKind :: GroupVersionKind where
  "CompositeResourceDefinitionGroupVersionKind =
     \<lparr>Group = extv1_Group, Version = ''v1'', Kind = extv1_CompositeResourceDefinitionKind\<rparr>"

subsection \<open>The records of the output schema\<close>

text \<open>
  \<open>CompositeResourceSpec\<close> is declared in composite.go. The other structs of the output
  schema are generated code that is not among the sources; their fields are the ones the
  constructors assign and the resolvers read.
\<close>

record ObjectMeta =
  UID :: string

record LabelSelector =
  MatchLabels :: "string \<rightharpoonup> string"

record Condition =
  Type :: string
  Status :: string
  LastTransitionTime :: Time
  Reason :: string
  Message :: "string option"

record CompositeResourceSpec =
  CompositionSelector :: "LabelSelector option"
  CompositionReference :: "ObjectReference option"
  ClaimReference :: "ObjectReference option"
  ResourceReferences :: "ObjectReference list option"
  WritesConnectionSecretToReference :: "SecretReference option"

record CompositeResourceConnectionDetails =
  LastPublishedTime :: "Time option"

record CompositeResourceStatus =
  Conditions :: "Condition list option"
  ConnectionDetails :: "CompositeResourceConnectionDetails option"

definition zero_ReferenceID :: ReferenceID where
  "zero_ReferenceID = \<lparr>ReferenceID.APIVersion = [], Kind = [], Namespace = [], Name = []\<rparr>"

record GenericResource =
  ID :: ReferenceID
  APIVersion :: string
  Kind :: string
  Metadata :: ObjectMeta
  Raw :: string

text \<open>
  Modelled from the spec: the declaration of the struct \<open>CompositeResource\<close> is missing.
  Every variant of \<open>KubernetesResource\<close> carries a ReferenceID, the raw serialized
  representation and a typed projection of spec and status, so \<open>CompositeResource\<close> has
  the fields of \<open>GenericResource\<close>, \<open>ID\<close> among them, and \<open>Spec\<close> and \<open>Status\<close>. A field that
  a struct literal leaves out holds Go's zero value; for a \<open>ReferenceID\<close> that is four empty
  strings.
\<close>

record CompositeResource = GenericResource +
  Spec :: "CompositeResourceSpec option"
  Status :: "CompositeResourceStatus option"

text \<open>
  \<open>KubernetesResource\<close> is the interface the shapes implement. \<open>'m\<close> stands for the shapes
  whose structs and constructors are not among the sources.
\<close>

datatype 'm KubernetesResource =
    K_ManagedResource 'm
  | K_ProviderConfig 'm
  | K_CompositeResource CompositeResource
  | K_Provider 'm
  | K_ProviderRevision 'm
  | K_Configuration 'm
  | K_ConfigurationRevision 'm
  | K_CompositeResourceDefinition 'm
  | K_Composition 'm
  | K_GenericResource GenericResource

subsection \<open>Typed objects and the functions taken as parameters\<close>

text \<open>
  A typed API object (\<open>runtime.Object\<close>: \<open>pkgv1.ConfigurationRevision\<close>,
  \<open>extv1.CompositeResourceDefinition\<close> and so on) is modelled by the fields the code reads
  or writes: its type meta, its owner references and, for a package revision,
  \<open>Spec.DesiredState\<close>. \<open>Object_type\<close> names the Go type of the object a call is to fill.
\<close>

record OwnerReference =
  UID :: string
  Controller :: "bool option"

record runtime_Object =
  TypeMeta :: GroupVersionKind
  OwnerReferences :: "OwnerReference list"
  Spec_DesiredState :: string

datatype Object_type =
    T_Provider | T_ProviderRevision | T_Configuration | T_ConfigurationRevision
  | T_CompositeResourceDefinition | T_Composition

text \<open>
  The functions the code calls whose source is not among the sources, as parameters: the
  three heuristics of package \<open>unstructured\<close>, the constructors of the other shapes,
  \<open>GetObjectMeta\<close>, and the library calls that can fail (\<open>FromUnstructured\<close> of the default
  converter, \<open>json.Marshal\<close> of the object and of its composite view).
\<close>

record ('a, 't, 'm) externals =
  ProbablyManaged :: "'a Unstructured_scheme \<Rightarrow> bool"
  ProbablyProviderConfig :: "'a Unstructured_scheme \<Rightarrow> bool"
  ProbablyComposite :: "'a Unstructured_scheme \<Rightarrow> bool"
  GetManagedResource :: "'a Unstructured_scheme \<Rightarrow> error + 'm"
  GetProviderConfig :: "'a Unstructured_scheme \<Rightarrow> error + 'm"
  GetProvider :: "'t runtime_Object_scheme \<Rightarrow> error + 'm"
  GetProviderRevision :: "'t runtime_Object_scheme \<Rightarrow> error + 'm"
  GetConfiguration :: "'t runtime_Object_scheme \<Rightarrow> error + 'm"
  GetConfigurationRevision :: "'t runtime_Object_scheme \<Rightarrow> error + 'm"
  GetCompositeResourceDefinition :: "'t runtime_Object_scheme \<Rightarrow> error + 'm"
  GetComposition :: "'t runtime_Object_scheme \<Rightarrow> error + 'm"
  GetObjectMeta :: "'a Unstructured_scheme \<Rightarrow> ObjectMeta"
  FromUnstructured :: "'a Unstructured_scheme \<Rightarrow> Object_type \<Rightarrow> error + 't runtime_Object_scheme"
  Marshal :: "'a Unstructured_scheme \<Rightarrow> error + string"
  Marshal_Composite :: "'a Unstructured_scheme \<Rightarrow> error + string"

subsection \<open>Constructors (common.go, composite.go)\<close>

definition GetConditions :: "xpv1_Condition list option \<Rightarrow> Condition list option" where
  "GetConditions in_conds =
     (case in_conds of
        None \<Rightarrow> None
      | Some cs \<Rightarrow>
          Some (map (\<lambda>c. \<lparr>Condition.Type = xpv1_Condition.Type c,
                            Status = xpv1_Condition.Status c,
                            LastTransitionTime = xpv1_Condition.LastTransitionTime c,
                            Reason = xpv1_Condition.Reason c,
                            Message = Some (xpv1_Condition.Message c)\<rparr>) cs))"

definition GetLabelSelector :: "(string \<rightharpoonup> string) option \<Rightarrow> LabelSelector option" where
  "GetLabelSelector sel =
     (case sel of None \<Rightarrow> None | Some ml \<Rightarrow> Some \<lparr>MatchLabels = ml\<rparr>)"

definition GetConnectionDetailsLastPublishedTime :: "Time option \<Rightarrow> Time option" where
  "GetConnectionDetailsLastPublishedTime t = (case t of None \<Rightarrow> None | Some tm \<Rightarrow> Some tm)"

definition GetGenericResource :: "('a, 't, 'm) externals \<Rightarrow> 'a Unstructured_scheme \<Rightarrow> error + GenericResource" where
  "GetGenericResource x u =
     (case Marshal x u of
        Inl err \<Rightarrow> Inl (Wrap err ''cannot marshal JSON'')
      | Inr raw \<Rightarrow>
          Inr \<lparr>ID = \<lparr>ReferenceID.APIVersion = GetAPIVersion u, Kind = GetKind u,
                       Namespace = GetNamespace u, Name = GetName u\<rparr>,
               APIVersion = GetAPIVersion u,
               Kind = GetKind u,
               Metadata = GetObjectMeta x u,
               Raw = raw\<rparr>)"

text \<open>
  The struct literal of \<open>GetCompositeResource\<close> assigns \<open>APIVersion\<close>, \<open>Kind\<close>, \<open>Metadata\<close>,
  \<open>Spec\<close>, \<open>Status\<close> and \<open>Raw\<close>; it assigns no \<open>ID\<close>, which therefore holds the zero value.
\<close>

definition GetCompositeResource :: "('a, 't, 'm) externals \<Rightarrow> 'a Unstructured_scheme \<Rightarrow> error + CompositeResource" where
  "GetCompositeResource x u =
     (case Marshal_Composite x u of
        Inl err \<Rightarrow> Inl (Wrap err ''cannot marshal JSON'')
      | Inr raw \<Rightarrow>
          Inr \<lparr>ID = zero_ReferenceID,
               APIVersion = GetAPIVersion u,
               Kind = GetKind u,
               Metadata = GetObjectMeta x u,
               Raw = raw,
               Spec = Some \<lparr>CompositionSelector = GetLabelSelector (spec_compositionSelector u),
                             CompositionReference = spec_compositionRef u,
                             ClaimReference = spec_claimRef u,
                             ResourceReferences = spec_resourceRefs u,
                             WritesConnectionSecretToReference = spec_writeConnectionSecretToRef u\<rparr>,
               Status = Some \<lparr>Conditions = GetConditions (status_conditions u),
                               ConnectionDetails =
                                 Some \<lparr>LastPublishedTime =
                                   GetConnectionDetailsLastPublishedTime
                                     (status_connectionDetails_lastPublishedTime u)\<rparr>\<rparr>\<rparr>)"

subsection \<open>The classifier\<close>

definition convert ::
  "('a, 't, 'm) externals \<Rightarrow> 'a Unstructured_scheme \<Rightarrow> Object_type \<Rightarrow> error + 't runtime_Object_scheme" where
  "convert x from to_type =
     (case FromUnstructured x from to_type of
        Inl err \<Rightarrow> Inl (Wrap err ''could not convert unstructured object'')
      | Inr to \<Rightarrow> Inr (to\<lparr>TypeMeta := FromAPIVersionAndKind (GetAPIVersion from) (GetKind from)\<rparr>))"

text \<open>
  \<open>return out, errors.Wrap(err, msg)\<close> after \<open>out, err := f(u)\<close>: the value as a
  \<open>KubernetesResource\<close> when \<open>f\<close> succeeds, the wrapped error otherwise.
\<close>

definition model_as ::
  "('r \<Rightarrow> 'm KubernetesResource) \<Rightarrow> string \<Rightarrow> error + 'r \<Rightarrow> error + 'm KubernetesResource" where
  "model_as K msg res = (case res of Inl err \<Rightarrow> Inl (Wrap err msg) | Inr out \<Rightarrow> Inr (K out))"

definition GetKubernetesResource ::
  "('a, 't, 'm) externals \<Rightarrow> 'a Unstructured_scheme \<Rightarrow> error + 'm KubernetesResource" where
  "GetKubernetesResource x u =
     (if ProbablyManaged x u then
        model_as K_ManagedResource ''cannot model managed resource'' (GetManagedResource x u)
      else if ProbablyProviderConfig x u then
        model_as K_ProviderConfig ''cannot model provider config'' (GetProviderConfig x u)
      else if ProbablyComposite x u then
        model_as K_CompositeResource ''cannot model composite resource'' (GetCompositeResource x u)
      else if GroupVersionKind u = ProviderGroupVersionKind then
        (case convert x u T_Provider of
           Inl err \<Rightarrow> Inl (Wrap err ''cannot convert provider'')
         | Inr p \<Rightarrow> model_as K_Provider ''cannot model provider'' (GetProvider x p))
      else if GroupVersionKind u = ProviderRevisionGroupVersionKind then
        (case convert x u T_ProviderRevision of
           Inl err \<Rightarrow> Inl (Wrap err ''cannot convert provider revision'')
         | Inr pr \<Rightarrow> model_as K_ProviderRevision ''cannot model provider revision'' (GetProviderRevision x pr))
      else if GroupVersionKind u = ConfigurationGroupVersionKind then
        (case convert x u T_Configuration of
           Inl err \<Rightarrow> Inl (Wrap err ''cannot convert configuration'')
         | Inr c \<Rightarrow> model_as K_Configuration ''cannot model configuration'' (GetConfiguration x c))
      else if GroupVersionKind u = ConfigurationRevisionGroupVersionKind then
        (case convert x u T_ConfigurationRevision of
           Inl err \<Rightarrow> Inl (Wrap err ''cannot convert configuration revision'')
         | Inr cr \<Rightarrow>
             model_as K_ConfigurationRevision ''cannot model configuration revision''
               (GetConfigurationRevision x cr))
      else if GroupVersionKind u = CompositeResourceDefinitionGroupVersionKind then
        (case convert x u T_CompositeResourceDefinition of
           Inl err \<Rightarrow> Inl (Wrap err ''cannot convert composite resource definition'')
         | Inr xrd \<Rightarrow>
             model_as K_CompositeResourceDefinition ''cannot model composite resource definition''
               (GetCompositeResourceDefinition x xrd))
      else model_as K_GenericResource ''cannot model generic resource'' (GetGenericResource x u))"

section \<open>Connection resolvers (package resolvers)\<close>

text \<open>
  \<open>Connection\<close> is the shape shared by \<open>model.ConfigurationRevisionConnection\<close> and
  \<open>model.KubernetesResourceConnection\<close>: the page of items and the count. \<open>Count\<close> is a Go
  \<open>int\<close>; it counts elements of a slice held in memory, far below \<open>2^63\<close>, and is read as
  an \<^typ>\<open>int\<close>. A pointer argument (\<open>*int\<close>, \<open>*bool\<close>) is an \<^typ>\<open>'a option\<close>.

  Of the backend client the resolvers use \<open>List\<close> and \<open>Get\<close>; each call answers with an
  error or with the objects of the asked type. \<open>clients_Get\<close> below is the outcome of
  \<open>r.clients.Get(t)\<close>.
\<close>

record 'i Connection =
  Items :: "'i list"
  Count :: int

record 't Client =
  client_List :: "Object_type \<Rightarrow> error + 't runtime_Object_scheme list"
  client_Get :: "Object_type \<Rightarrow> string \<Rightarrow> error + 't runtime_Object_scheme"

subsection \<open>configuration.Revisions\<close>

text \<open>Of the parent \<open>model.Configuration\<close> the resolver reads \<open>Metadata.UID\<close>.\<close>

record Configuration =
  Metadata :: ObjectMeta

definition PackageRevisionActive :: string where
  "PackageRevisionActive = ''Active''"

text \<open>\<open>metav1.GetControllerOf\<close>: the first owner reference whose \<open>Controller\<close> is set and true.\<close>

definition GetControllerOf :: "'t runtime_Object_scheme \<Rightarrow> OwnerReference option" where
  "GetControllerOf controllee = find (\<lambda>ref. Controller ref = Some True) (OwnerReferences controllee)"

definition BoolPtrDerefOr :: "bool option \<Rightarrow> bool \<Rightarrow> bool" where
  "BoolPtrDerefOr ptr def = (case ptr of None \<Rightarrow> def | Some b \<Rightarrow> b)"

text \<open>The loop of \<open>Revisions\<close> over \<open>in.Items\<close>, with \<open>out\<close> as its state.\<close>

fun Revisions_loop ::
  "('a, 't, 'm) externals \<Rightarrow> Configuration \<Rightarrow> int option \<Rightarrow> bool option \<Rightarrow>
   't runtime_Object_scheme list \<Rightarrow> 'm Connection \<Rightarrow> error + 'm Connection" where
  "Revisions_loop x obj limit active [] out = Inr out"
| "Revisions_loop x obj limit active (cr # items) out =
     (if (case GetControllerOf cr of None \<Rightarrow> True
          | Some c \<Rightarrow> OwnerReference.UID c \<noteq> ObjectMeta.UID (Configuration.Metadata obj))
      then Revisions_loop x obj limit active items out
      else if BoolPtrDerefOr active False \<and> Spec_DesiredState cr \<noteq> PackageRevisionActive
      then Revisions_loop x obj limit active items out
      else let out = out\<lparr>Count := Count out + 1\<rparr>
           in if (case limit of None \<Rightarrow> False | Some l \<Rightarrow> l < Count out)
              then Revisions_loop x obj limit active items out
              else case GetConfigurationRevision x cr of
                     Inl err \<Rightarrow> Inl (Wrap err ''cannot model configuration revision'')
                   | Inr i \<Rightarrow> Revisions_loop x obj limit active items (out\<lparr>Items := Items out @ [i]\<rparr>))"

definition Revisions ::
  "('a, 't, 'm) externals \<Rightarrow> (error + 't Client) \<Rightarrow> Configuration \<Rightarrow> int option \<Rightarrow> bool option \<Rightarrow>
   error + 'm Connection" where
  "Revisions x clients_Get obj limit active =
     (case clients_Get of
        Inl err \<Rightarrow> Inl (Wrap err ''cannot get client'')
      | Inr c \<Rightarrow>
          (case client_List c T_ConfigurationRevision of
             Inl err \<Rightarrow> Inl (Wrap err ''cannot list configurations'')
           | Inr items \<Rightarrow> Revisions_loop x obj limit active items \<lparr>Items = [], Count = 0\<rparr>))"

subsection \<open>configurationRevisionStatus.Objects\<close>

text \<open>
  Of \<open>model.ConfigurationRevisionStatus\<close> the resolver reads \<open>ObjectRefs\<close>, typed references
  with an API version, a kind and a name.
\<close>

record TypedReference =
  APIVersion :: string
  Kind :: string
  Name :: string

record ConfigurationRevisionStatus =
  ObjectRefs :: "TypedReference list"

fun Objects_loop ::
  "('a, 't, 'm) externals \<Rightarrow> 't Client \<Rightarrow> int option \<Rightarrow> TypedReference list \<Rightarrow>
   'm KubernetesResource Connection \<Rightarrow> error + 'm KubernetesResource Connection" where
  "Objects_loop x c limit [] out = Inr out"
| "Objects_loop x c limit (ref # refs) out =
     (case at_index (Split (TypedReference.APIVersion ref) CHR ''/'') 0 of
        Inl panic \<Rightarrow> Inl panic
      | Inr g \<Rightarrow>
          if g \<noteq> extv1_Group then Objects_loop x c limit refs out
          else let out = out\<lparr>Count := Count out + 1\<rparr>
               in if (case limit of None \<Rightarrow> False | Some l \<Rightarrow> l < Count out)
                  then Objects_loop x c limit refs out
                  else if TypedReference.Kind ref = extv1_CompositeResourceDefinitionKind then
                    (case client_Get c T_CompositeResourceDefinition (TypedReference.Name ref) of
                       Inl err \<Rightarrow> Inl (Wrap err ''cannot get CompositeResourceDefinition'')
                     | Inr xrd \<Rightarrow>
                         (case GetCompositeResourceDefinition x xrd of
                            Inl err \<Rightarrow> Inl (Wrap err ''cannot model composite resource definition'')
                          | Inr i \<Rightarrow>
                              Objects_loop x c limit refs
                                (out\<lparr>Items := Items out @ [K_CompositeResourceDefinition i]\<rparr>)))
                  else if TypedReference.Kind ref = extv1_CompositionKind then
                    (case client_Get c T_Composition (TypedReference.Name ref) of
                       Inl err \<Rightarrow> Inl (Wrap err ''cannot get Composition'')
                     | Inr cmp \<Rightarrow>
                         (case GetComposition x cmp of
                            Inl err \<Rightarrow> Inl (Wrap err ''cannot model composition'')
                          | Inr i \<Rightarrow>
                              Objects_loop x c limit refs (out\<lparr>Items := Items out @ [K_Composition i]\<rparr>)))
                  else Objects_loop x c limit refs out)"

definition Objects ::
  "('a, 't, 'm) externals \<Rightarrow> (error + 't Client) \<Rightarrow> ConfigurationRevisionStatus \<Rightarrow> int option \<Rightarrow>
   error + 'm KubernetesResource Connection" where
  "Objects x clients_Get obj limit =
     (case clients_Get of
        Inl err \<Rightarrow> Inl (Wrap err ''cannot get client'')
      | Inr c \<Rightarrow> Objects_loop x c limit (ObjectRefs obj) \<lparr>Items = [], Count = 0\<rparr>)"

section \<open>Notions of the specification\<close>

text \<open>
  The two filters of \<open>Revisions\<close> as one predicate on a candidate: its controller
  reference exists and has the parent's UID, and it is active when only active revisions
  are asked for.
\<close>

definition passes :: "Configuration \<Rightarrow> bool option \<Rightarrow> 't runtime_Object_scheme \<Rightarrow> bool" where
  "passes obj active cr =
     ((case GetControllerOf cr of None \<Rightarrow> False
       | Some c \<Rightarrow> OwnerReference.UID c = ObjectMeta.UID (Configuration.Metadata obj)) \<and>
      (if active = Some True then Spec_DesiredState cr = PackageRevisionActive else True))"

text \<open>The page: everything when the limit is unset, nothing when it is negative.\<close>

definition page :: "int option \<Rightarrow> 'b list \<Rightarrow> 'b list" where
  "page limit xs = (case limit of None \<Rightarrow> xs | Some l \<Rightarrow> take (nat l) xs)"

text \<open>Modelling a list of candidates in order, failing at the first that fails.\<close>

fun model_all :: "('b \<Rightarrow> error + 'i) \<Rightarrow> 'b list \<Rightarrow> error + 'i list" where
  "model_all f [] = Inr []"
| "model_all f (b # bs) =
     (case f b of
        Inl err \<Rightarrow> Inl err
      | Inr i \<Rightarrow> (case model_all f bs of Inl err \<Rightarrow> Inl err | Inr rest \<Rightarrow> Inr (i # rest)))"

text \<open>The API group of a typed reference, and whether \<open>Objects\<close> has a case for its kind.\<close>

definition in_group :: "TypedReference \<Rightarrow> bool" where
  "in_group ref = (takeWhile (\<lambda>c. c \<noteq> CHR ''/'') (TypedReference.APIVersion ref) = extv1_Group)"

definition known_kind :: "TypedReference \<Rightarrow> bool" where
  "known_kind ref =
     (TypedReference.Kind ref = extv1_CompositeResourceDefinitionKind \<or>
      TypedReference.Kind ref = extv1_CompositionKind)"

text \<open>
  The dispatch of the classifier as the specification describes it: an ordered list of
  pairs of a predicate and a constructor, the first pair whose predicate holds deciding.
\<close>

definition convert_and_model ::
  "('a, 't, 'm) externals \<Rightarrow> Object_type \<Rightarrow> string \<Rightarrow> ('m \<Rightarrow> 'm KubernetesResource) \<Rightarrow> string \<Rightarrow>
   ('t runtime_Object_scheme \<Rightarrow> error + 'm) \<Rightarrow> 'a Unstructured_scheme \<Rightarrow> error + 'm KubernetesResource" where
  "convert_and_model x ty cannot_convert K cannot_model get u =
     (case convert x u ty of
        Inl err \<Rightarrow> Inl (Wrap err cannot_convert)
      | Inr typed \<Rightarrow> model_as K cannot_model (get typed))"

definition rules ::
  "('a, 't, 'm) externals \<Rightarrow>
   (('a Unstructured_scheme \<Rightarrow> bool) \<times> ('a Unstructured_scheme \<Rightarrow> error + 'm KubernetesResource)) list" where
  "rules x =
     [(ProbablyManaged x,
         \<lambda>u. model_as K_ManagedResource ''cannot model managed resource'' (GetManagedResource x u)),
      (ProbablyProviderConfig x,
         \<lambda>u. model_as K_ProviderConfig ''cannot model provider config'' (GetProviderConfig x u)),
      (ProbablyComposite x,
         \<lambda>u. model_as K_CompositeResource ''cannot model composite resource'' (GetCompositeResource x u)),
      (\<lambda>u. GroupVersionKind u = ProviderGroupVersionKind,
         convert_and_model x T_Provider ''cannot convert provider''
           K_Provider ''cannot model provider'' (GetProvider x)),
      (\<lambda>u. GroupVersionKind u = ProviderRevisionGroupVersionKind,
         convert_and_model x T_ProviderRevision ''cannot convert provider revision''
           K_ProviderRevision ''cannot model provider revision'' (GetProviderRevision x)),
      (\<lambda>u. GroupVersionKind u = ConfigurationGroupVersionKind,
         convert_and_model x T_Configuration ''cannot convert configuration''
           K_Configuration ''cannot model configuration'' (GetConfiguration x)),
      (\<lambda>u. GroupVersionKind u = ConfigurationRevisionGroupVersionKind,
         convert_and_model x T_ConfigurationRevision ''cannot convert configuration revision''
           K_ConfigurationRevision ''cannot model configuration revision'' (GetConfigurationRevision x)),
      (\<lambda>u. GroupVersionKind u = CompositeResourceDefinitionGroupVersionKind,
         convert_and_model x T_CompositeResourceDefinition ''cannot convert composite resource definition''
           K_CompositeResourceDefinition ''cannot model composite resource definition''
           (GetCompositeResourceDefinition x)),
      (\<lambda>u. True,
         \<lambda>u. model_as K_GenericResource ''cannot model generic resource'' (GetGenericResource x u))]"

fun first_match :: "(('u \<Rightarrow> bool) \<times> ('u \<Rightarrow> 'r)) list \<Rightarrow> 'u \<Rightarrow> 'r option" where
  "first_match [] u = None"
| "first_match ((p, k) # rs) u = (if p u then Some (k u) else first_match rs u)"

text \<open>The known package and extension kinds, each with the Go type it converts to.\<close>

definition package_kinds :: "(GroupVersionKind \<times> Object_type) list" where
  "package_kinds =
     [(ProviderGroupVersionKind, T_Provider),
      (ProviderRevisionGroupVersionKind, T_ProviderRevision),
      (ConfigurationGroupVersionKind, T_Configuration),
      (ConfigurationRevisionGroupVersionKind, T_ConfigurationRevision),
      (CompositeResourceDefinitionGroupVersionKind, T_CompositeResourceDefinition)]"

section \<open>Example data\<close>

text \<open>
  An unstructured object with two more paths of its content: the name of its provider
  config reference, and \<open>spec.package\<close>, which is a string in a well-formed package object
  and here may also be a number. The example heuristics take a cluster-scoped object with
  a provider config reference for a managed resource; the example conversion fails on a
  \<open>spec.package\<close> that is not a string; the example constructors give the name of the
  object as its model, and modelling the configuration revision named \<open>bad\<close> fails.
\<close>

record Example_object = Unstructured +
  spec_providerConfigRef_name :: "string option"
  spec_package :: "int + string"

definition example_externals :: "(unit Example_object_ext, string, string) externals" where
  "example_externals =
     \<lparr>ProbablyManaged = (\<lambda>u. metadata_namespace u = [] \<and> spec_providerConfigRef_name u \<noteq> None),
      ProbablyProviderConfig = (\<lambda>u. False),
      ProbablyComposite = (\<lambda>u. spec_resourceRefs u \<noteq> None),
      GetManagedResource = (\<lambda>u. Inr (metadata_name u)),
      GetProviderConfig = (\<lambda>u. Inr (metadata_name u)),
      GetProvider = (\<lambda>t. Inr (runtime_Object.more t)),
      GetProviderRevision = (\<lambda>t. Inr (runtime_Object.more t)),
      GetConfiguration = (\<lambda>t. Inr (runtime_Object.more t)),
      GetConfigurationRevision =
        (\<lambda>t. if runtime_Object.more t = ''bad'' then Inl (New ''cannot marshal JSON'')
             else Inr (runtime_Object.more t)),
      GetCompositeResourceDefinition = (\<lambda>t. Inr (runtime_Object.more t)),
      GetComposition = (\<lambda>t. Inr (runtime_Object.more t)),
      GetObjectMeta = (\<lambda>u. \<lparr>ObjectMeta.UID = []\<rparr>),
      FromUnstructured =
        (\<lambda>u t. case spec_package u of
                  Inl n \<Rightarrow> Inl (New ''spec.package: expected string'')
                | Inr s \<Rightarrow> Inr \<lparr>TypeMeta = WithKind empty_GroupVersion [], OwnerReferences = [],
                                 Spec_DesiredState = [], \<dots> = metadata_name u\<rparr>),
      Marshal = (\<lambda>u. Inr ''{}''),
      Marshal_Composite = (\<lambda>u. Inr ''{}'')\<rparr>"

definition revision :: "string \<Rightarrow> string \<Rightarrow> string \<Rightarrow> string runtime_Object_scheme" where
  "revision owner state n =
     \<lparr>TypeMeta = ConfigurationRevisionGroupVersionKind,
      OwnerReferences = [\<lparr>OwnerReference.UID = owner, Controller = Some True\<rparr>],
      Spec_DesiredState = state, \<dots> = n\<rparr>"

definition example_candidates :: "string runtime_Object_scheme list" where
  "example_candidates =
     [revision ''P'' ''Active'' ''r1'', revision ''Q'' ''Active'' ''q1'',
      revision ''P'' ''Inactive'' ''r2'', revision ''Q'' ''Inactive'' ''q2'',
      revision ''P'' ''Active'' ''r3'']"

definition example_client :: "string runtime_Object_scheme list \<Rightarrow> string Client" where
  "example_client cands =
     \<lparr>client_List = (\<lambda>t. Inr cands),
      client_Get = (\<lambda>t n. if n = ''missing'' then Inl (New ''not found'') else Inr (revision [] [] n))\<rparr>"

definition example_parent :: Configuration where
  "example_parent = \<lparr>Configuration.Metadata = \<lparr>ObjectMeta.UID = ''P''\<rparr>\<rparr>"

definition example_candidates_bad :: "string runtime_Object_scheme list" where
  "example_candidates_bad =
     [revision ''P'' ''Active'' ''r1'', revision ''Q'' ''Active'' ''q1'',
      revision ''P'' ''Active'' ''bad'', revision ''P'' ''Active'' ''r3'']"

text \<open>
  A cluster-scoped object of kind \<open>Provider\<close> in \<open>pkg.crossplane.io/v1\<close> that also has a
  provider config reference, and whose \<open>spec.package\<close> is a number; and a composite
  resource.
\<close>

definition blank :: "string \<Rightarrow> string \<Rightarrow> string \<Rightarrow> string \<Rightarrow> Example_object" where
  "blank av k ns n =
     \<lparr>apiVersion = av, kind = k, metadata_namespace = ns, metadata_name = n,
      spec_compositionSelector = None, spec_compositionRef = None, spec_claimRef = None,
      spec_resourceRefs = None, spec_writeConnectionSecretToRef = None,
      status_conditions = None, status_connectionDetails_lastPublishedTime = None,
      spec_providerConfigRef_name = None, spec_package = Inr []\<rparr>"

definition example_overlap :: Example_object where
  "example_overlap =
     (blank ''pkg.crossplane.io/v1'' ''Provider'' [] ''p'')
       \<lparr>spec_providerConfigRef_name := Some ''default'', spec_package := Inl 7\<rparr>"

definition example_broken_provider :: Example_object where
  "example_broken_provider =
     (blank ''pkg.crossplane.io/v1'' ''Provider'' [] ''p'')\<lparr>spec_package := Inl 7\<rparr>"

definition example_composite :: Example_object where
  "example_composite =
     (blank ''example.org/v1'' ''XDatabase'' [] ''db'')\<lparr>spec_resourceRefs := Some []\<rparr>"

text \<open>Object references of a configuration revision: an XRD, a kind without a case, a CRD.\<close>

definition example_refs :: "TypedReference list" where
  "example_refs =
     [\<lparr>TypedReference.APIVersion = ''apiextensions.crossplane.io/v1'',
       Kind = ''CompositeResourceDefinition'', Name = ''xdatabases.example.org''\<rparr>,
      \<lparr>TypedReference.APIVersion = ''apiextensions.crossplane.io/v1'',
       Kind = ''Widget'', Name = ''w''\<rparr>,
      \<lparr>TypedReference.APIVersion = ''apiextensions.k8s.io/v1'',
       Kind = ''CustomResourceDefinition'', Name = ''missing''\<rparr>]"

section \<open>Properties of the codec\<close>

subsection \<open>The tables\<close>

lemma length_encodeStd: "length encodeStd = 64"
  by (simp add: encodeStd_def)

lemma distinct_encodeStd: "distinct encodeStd"
  by (simp add: encodeStd_def)

lemma fold_table_hit:
  "distinct xs \<Longrightarrow> n \<le> length xs \<Longrightarrow> i < n \<Longrightarrow>
     fold (\<lambda>i m. m(xs ! i := f i)) [0..<n] m0 (xs ! i) = f i"
proof (induction n)
  case 0
  then show ?case by simp
next
  case (Suc n)
  show ?case
  proof (cases "i = n")
    case True
    then show ?thesis by simp
  next
    case False
    with Suc.prems have "i < n" "n < length xs" "i < length xs" by simp_all
    with Suc.prems False have "xs ! n \<noteq> xs ! i"
      by (simp add: nth_eq_iff_index_eq)
    with Suc \<open>i < n\<close> show ?thesis by simp
  qed
qed

lemma fold_table_miss:
  "n \<le> length xs \<Longrightarrow> c \<notin> set (take n xs) \<Longrightarrow>
     fold (\<lambda>i m. m(xs ! i := f i)) [0..<n] m0 c = m0 c"
proof (induction n)
  case 0
  then show ?case by simp
next
  case (Suc n)
  then have "c \<notin> set (take n xs)" "xs ! n \<noteq> c"
    by (auto simp: take_Suc_conv_app_nth)
  with Suc show ?case by simp
qed

lemma decodeMap_encode: "i < 64 \<Longrightarrow> decodeMap (encode i) = i"
  unfolding decodeMap_def encode_def
  by (rule fold_table_hit) (simp_all add: distinct_encodeStd length_encodeStd)

lemma decodeMap_miss: "c \<notin> set encodeStd \<Longrightarrow> decodeMap c = 0xFF"
  unfolding decodeMap_def
  by (subst fold_table_miss) simp_all

lemma decodeMap_hit: "c \<in> set encodeStd \<Longrightarrow> decodeMap c < 64"
proof -
  assume "c \<in> set encodeStd"
  then obtain i where "i < length encodeStd" "encodeStd ! i = c"
    by (auto simp: in_set_conv_nth)
  then show ?thesis using decodeMap_encode[of i]
    by (simp add: encode_def length_encodeStd)
qed

lemma decodeMap_valid_iff: "decodeMap c \<noteq> 0xFF \<longleftrightarrow> c \<in> set encodeStd"
  using decodeMap_hit[of c] decodeMap_miss[of c] by auto

subsection \<open>Packing and unpacking bits\<close>

lemma and63: "(x::nat) AND 0x3F = take_bit 6 x"
proof -
  have "(0x3F::nat) = mask 6" by (simp add: mask_eq_exp_minus_1)
  then show ?thesis by (simp only: take_bit_eq_mask)
qed

lemma and63_less: "(x::nat) AND 0x3F < 64"
  unfolding and63 using take_bit_nat_less_exp[of 6 x] by simp

lemma bit_bound:
  fixes val :: nat
  assumes "val < 2 ^ k" "bit val n"
  shows "n < k"
proof -
  have tb: "take_bit k val = val" using assms by (simp add: take_bit_nat_eq_self)
  have "bit (take_bit k val) n" using assms tb by simp
  then show "n < k" by (simp add: bit_simps)
qed

lemma reassemble:
  fixes val :: nat
  assumes "val < 2 ^ 24"
  shows "push_bit 18 (drop_bit 18 val AND 0x3F) OR push_bit 12 (drop_bit 12 val AND 0x3F) OR
         push_bit 6 (drop_bit 6 val AND 0x3F) OR (val AND 0x3F) = val"
  unfolding and63
proof (rule bit_eqI)
  fix n
  have b: "bit val n \<Longrightarrow> n < 24" using bit_bound[OF assms] .
  show "bit (push_bit 18 (take_bit 6 (drop_bit 18 val)) OR push_bit 12 (take_bit 6 (drop_bit 12 val)) OR push_bit 6 (take_bit 6 (drop_bit 6 val)) OR (take_bit 6 val)) n = bit val n"
  proof (cases "bit val n")
    case True
    with b have "n < 24" by simp
    with True show ?thesis by (simp add: bit_simps cong: conj_cong) arith
  next
    case False
    then show ?thesis by (simp add: bit_simps cong: conj_cong)
  qed
qed

lemma pack_bits:
  fixes x y z :: nat
  assumes "x < 2 ^ 8" "y < 2 ^ 8" "z < 2 ^ 8"
  shows "bit (push_bit 16 x OR push_bit 8 y OR z) n \<longleftrightarrow>
           (16 \<le> n \<and> n < 24 \<and> bit x (n - 16)) \<or> (8 \<le> n \<and> n < 16 \<and> bit y (n - 8)) \<or> (n < 8 \<and> bit z n)"
  using bit_bound[OF assms(1), of "n - 16"] bit_bound[OF assms(2), of "n - 8"] bit_bound[OF assms(3), of n]
  by (simp add: bit_simps) arith

lemma pack_less:
  fixes x y z :: nat
  assumes "x < 2 ^ 8" "y < 2 ^ 8" "z < 2 ^ 8"
  shows "push_bit 16 x OR push_bit 8 y OR z < 2 ^ 24"
proof -
  define V where "V = push_bit 16 x OR push_bit 8 y OR z"
  have bits: "\<And>n. bit V n \<Longrightarrow> n < 24"
    unfolding V_def pack_bits[OF assms] by auto
  have "take_bit 24 V = V"
    by (rule bit_eqI) (auto simp: bit_take_bit_iff dest: bits)
  then have "V < 2 ^ 24" by (metis take_bit_nat_less_exp)
  then show ?thesis by (simp add: V_def)
qed

lemma pack_bytes:
  fixes x y z :: nat
  assumes "x < 2 ^ 8" "y < 2 ^ 8" "z < 2 ^ 8"
  shows "take_bit 8 (drop_bit 16 (push_bit 16 x OR push_bit 8 y OR z)) = x"
    and "take_bit 8 (drop_bit 8 (push_bit 16 x OR push_bit 8 y OR z)) = y"
    and "take_bit 8 (push_bit 16 x OR push_bit 8 y OR z) = z"
proof -
  define V where "V = push_bit 16 x OR push_bit 8 y OR z"
  have bits: "\<And>n. bit V n \<longleftrightarrow>
      (16 \<le> n \<and> n < 24 \<and> bit x (n - 16)) \<or> (8 \<le> n \<and> n < 16 \<and> bit y (n - 8)) \<or> (n < 8 \<and> bit z n)"
    unfolding V_def by (rule pack_bits[OF assms])
  have "take_bit 8 (drop_bit 16 V) = x"
    using bit_bound[OF assms(1)]
    by (intro bit_eqI) (auto simp: bit_take_bit_iff bit_drop_bit_eq bits)
  then show "take_bit 8 (drop_bit 16 (push_bit 16 x OR push_bit 8 y OR z)) = x"
    by (simp only: V_def)
  have "take_bit 8 (drop_bit 8 V) = y"
    using bit_bound[OF assms(2)]
    by (intro bit_eqI) (auto simp: bit_take_bit_iff bit_drop_bit_eq bits)
  then show "take_bit 8 (drop_bit 8 (push_bit 16 x OR push_bit 8 y OR z)) = y"
    by (simp only: V_def)
  have "take_bit 8 V = z"
    using bit_bound[OF assms(3)]
    by (intro bit_eqI) (auto simp: bit_take_bit_iff bits)
  then show "take_bit 8 (push_bit 16 x OR push_bit 8 y OR z) = z"
    by (simp only: V_def)
qed

lemma of_char_less: "(of_char c :: nat) < 2 ^ 8"
  by simp

subsection \<open>Decoding what was encoded\<close>

lemma Suc_numerals: "Suc (Suc (Suc (Suc 0))) = 4" "Suc (Suc (Suc 0)) = 3" "Suc (Suc 0) = 2"
  by simp_all

lemma decodeQuantum_4:
  assumes "s0 < 64" "s1 < 64" "s2 < 64" "s3 < 64"
  shows "decodeQuantum (encode s0 # encode s1 # encode s2 # encode s3 # rest) si =
           Inr (assemble 4 [s0, s1, s2, s3], rest, si + 4)"
  using assms by (cases rest) (simp_all add: decodeQuantum_def decodeMap_encode Suc_numerals)

lemma decodeQuantum_3:
  assumes "s0 < 64" "s1 < 64" "s2 < 64"
  shows "decodeQuantum [encode s0, encode s1, encode s2] si = Inr (assemble 3 [s0, s1, s2, 0], [], si + 3)"
  using assms by (simp add: decodeQuantum_def decodeMap_encode Suc_numerals)

lemma decodeQuantum_2:
  assumes "s0 < 64" "s1 < 64"
  shows "decodeQuantum [encode s0, encode s1] si = Inr (assemble 2 [s0, s1, 0, 0], [], si + 2)"
  using assms by (simp add: decodeQuantum_def decodeMap_encode Suc_numerals)

lemma assemble_pack:
  fixes x y z :: nat
  assumes "x < 2 ^ 8" "y < 2 ^ 8" "z < 2 ^ 8"
  defines "val \<equiv> push_bit 16 x OR push_bit 8 y OR z"
  defines "dbuf \<equiv> [drop_bit 18 val AND 0x3F, drop_bit 12 val AND 0x3F, drop_bit 6 val AND 0x3F, val AND 0x3F]"
  shows "assemble 4 dbuf = [char_of x, char_of y, char_of z]"
    and "assemble 3 dbuf = [char_of x, char_of y]"
    and "assemble 2 dbuf = [char_of x]"
proof -
  have lt: "val < 2 ^ 24" unfolding val_def by (rule pack_less[OF assms(1-3)])
  have v: "push_bit 18 (dbuf ! 0) OR push_bit 12 (dbuf ! 1) OR push_bit 6 (dbuf ! 2) OR dbuf ! 3 = val"
    unfolding dbuf_def using reassemble[OF lt] by simp
  have b0: "char_of (drop_bit 16 val) = char_of x"
    unfolding val_def using pack_bytes(1)[OF assms(1-3)] assms(1)
    by (simp add: char_of_eq_iff take_bit_eq_mod)
  have b1: "char_of (drop_bit 8 val) = char_of y"
    unfolding val_def using pack_bytes(2)[OF assms(1-3)] assms(2)
    by (simp add: char_of_eq_iff take_bit_eq_mod)
  have b2: "char_of val = char_of z"
    unfolding val_def using pack_bytes(3)[OF assms(1-3)] assms(3)
    by (simp add: char_of_eq_iff take_bit_eq_mod)
  show "assemble 4 dbuf = [char_of x, char_of y, char_of z]"
    unfolding assemble_def v by (simp add: b0 b1 b2)
  show "assemble 3 dbuf = [char_of x, char_of y]"
    unfolding assemble_def v by (simp add: b0 b1 b2)
  show "assemble 2 dbuf = [char_of x]"
    unfolding assemble_def v by (simp add: b0 b1 b2)
qed

lemma low_zero2:
  fixes x y :: nat
  shows "(push_bit 16 x OR push_bit 8 y) AND 0x3F = 0"
  unfolding and63 by (rule bit_eqI) (auto simp: bit_simps)

lemma low_zero1:
  fixes x :: nat
  shows "push_bit 16 x AND 0x3F = 0" "drop_bit 6 (push_bit 16 x) AND 0x3F = 0"
  unfolding and63 by (rule bit_eqI; auto simp: bit_simps)+

lemma Decode_Nil: "Decode [] si = Inr []"
  by (subst Decode.simps) simp

lemma Decode_Encode: "Decode (Encode bs) si = Inr bs"
proof (induction bs arbitrary: si rule: Encode.induct)
  case (1 a b c src)
  define val where "val = push_bit 16 (of_char a) OR push_bit 8 (of_char b) OR (of_char c :: nat)"
  have e: "Encode (a # b # c # src) =
      encode (drop_bit 18 val AND 0x3F) # encode (drop_bit 12 val AND 0x3F) #
      encode (drop_bit 6 val AND 0x3F) # encode (val AND 0x3F) # Encode src"
    by (simp only: Encode.simps Let_def val_def)
  have "assemble 4 [drop_bit 18 val AND 0x3F, drop_bit 12 val AND 0x3F, drop_bit 6 val AND 0x3F, val AND 0x3F]
          = [char_of (of_char a :: nat), char_of (of_char b :: nat), char_of (of_char c :: nat)]"
    unfolding val_def by (rule assemble_pack(1)) simp_all
  then have q: "decodeQuantum (Encode (a # b # c # src)) si = Inr ([a, b, c], Encode src, si + 4)"
    by (simp only: e decodeQuantum_4[OF and63_less and63_less and63_less and63_less] char_of_char)
  have ne: "Encode (a # b # c # src) \<noteq> []" by (simp only: e) simp
  show ?case
    by (subst Decode.simps) (simp add: q ne 1 del: Encode.simps Decode.simps)
next
  case (2 a b)
  define val where "val = push_bit 16 (of_char a) OR push_bit 8 (of_char b) OR (0 :: nat)"
  have e: "Encode [a, b] =
      [encode (drop_bit 18 val AND 0x3F), encode (drop_bit 12 val AND 0x3F), encode (drop_bit 6 val AND 0x3F)]"
    by (simp add: Let_def val_def)
  have z: "val AND 0x3F = 0" unfolding val_def using low_zero2[of "of_char a" "of_char b"] by simp
  have "assemble 3 [drop_bit 18 val AND 0x3F, drop_bit 12 val AND 0x3F, drop_bit 6 val AND 0x3F, val AND 0x3F]
          = [char_of (of_char a :: nat), char_of (of_char b :: nat)]"
    unfolding val_def by (rule assemble_pack(2)) simp_all
  then have q: "decodeQuantum (Encode [a, b]) si = Inr ([a, b], [], si + 3)"
    by (simp only: e z decodeQuantum_3[OF and63_less and63_less and63_less] char_of_char)
  have ne: "Encode [a, b] \<noteq> []" by (simp only: e) simp
  show ?case
    by (subst Decode.simps) (simp add: q ne Decode_Nil del: Encode.simps Decode.simps)
next
  case (3 a)
  define val where "val = push_bit 16 (of_char a) OR push_bit 8 (0 :: nat) OR (0 :: nat)"
  have e: "Encode [a] = [encode (drop_bit 18 val AND 0x3F), encode (drop_bit 12 val AND 0x3F)]"
    by (simp add: Let_def val_def)
  have z: "val AND 0x3F = 0" "drop_bit 6 val AND 0x3F = 0"
    unfolding val_def using low_zero1[of "of_char a"] by simp_all
  have "assemble 2 [drop_bit 18 val AND 0x3F, drop_bit 12 val AND 0x3F, drop_bit 6 val AND 0x3F, val AND 0x3F]
          = [char_of (of_char a :: nat)]"
    unfolding val_def by (rule assemble_pack(3)) simp_all
  then have q: "decodeQuantum (Encode [a]) si = Inr ([a], [], si + 2)"
    by (simp only: e z decodeQuantum_2[OF and63_less and63_less] char_of_char)
  have ne: "Encode [a] \<noteq> []" by (simp only: e) simp
  show ?case
    by (subst Decode.simps) (simp add: q ne Decode_Nil del: Encode.simps Decode.simps)
next
  case 4
  show ?case by (simp add: Decode_Nil del: Decode.simps)
qed

subsection \<open>Splitting\<close>

lemma Index_None_iff: "Index s c = None \<longleftrightarrow> c \<notin> set s"
  by (induction s) auto

lemma Index_append: "c \<notin> set a \<Longrightarrow> Index (a @ c # rest) c = Some (length a)"
  by (induction a) auto

lemma Index_None: "c \<notin> set s \<Longrightarrow> Index s c = None"
  by (simp add: Index_None_iff)

lemma Split_no_sep: "c \<notin> set s \<Longrightarrow> Split s c = [s]"
  by (subst Split.simps) (simp add: Index_None)

lemma Split_append: "c \<notin> set a \<Longrightarrow> Split (a @ c # rest) c = a # Split rest c"
  by (subst Split.simps) (simp add: Index_append)

lemma Index_Some_split:
  "Index s c = Some m \<Longrightarrow> s = take m s @ c # drop (m + 1) s \<and> c \<notin> set (take m s)"
proof (induction s arbitrary: m)
  case Nil
  then show ?case by simp
next
  case (Cons x xs)
  show ?case
  proof (cases "x = c")
    case True
    with Cons.prems show ?thesis by simp
  next
    case False
    with Cons.prems obtain k where k: "Index xs c = Some k" "m = Suc k" by auto
    from Cons.IH[OF k(1)] False k(2) show ?thesis by simp
  qed
qed

lemma length_Split: "length (Split s c) = count_list s c + 1"
proof (induction s c rule: Split.induct)
  case (1 s c)
  show ?case
  proof (cases "Index s c")
    case None
    then have "c \<notin> set s" by (simp add: Index_None_iff)
    then have "count_list s c = 0" by (simp add: count_list_0_iff)
    with None show ?thesis by (subst Split.simps) simp
  next
    case (Some m)
    from Index_Some_split[OF Some]
    have s: "s = take m s @ c # drop (m + 1) s" and n: "c \<notin> set (take m s)" by simp_all
    have "count_list s c = count_list (take m s @ c # drop (m + 1) s) c" using s by simp
    also have "\<dots> = count_list (drop (m + 1) s) c + 1"
      using n by (simp add: count_list_0_iff)
    finally have c: "count_list s c = count_list (drop (m + 1) s) c + 1" .
    have "length (Split s c) = length (Split (drop (m + 1) s) c) + 1"
      by (subst Split.simps) (simp add: Some)
    with 1[OF Some] c show ?thesis by simp
  qed
qed

lemma Split_four:
  assumes "c \<notin> set p0" "c \<notin> set p1" "c \<notin> set p2" "c \<notin> set p3"
  shows "Split (p0 @ [c] @ p1 @ [c] @ p2 @ [c] @ p3) c = [p0, p1, p2, p3]"
  using assms by (simp add: Split_append Split_no_sep)

subsection \<open>What the decoder accepts\<close>

lemma newline_not_symbol: "CHR 0x0A \<notin> set encodeStd" "CHR 0x0D \<notin> set encodeStd"
  by (simp_all add: encodeStd_def)

lemma decodeLoop_full: "decodeLoop 4 dbuf src si = Inr (assemble 4 dbuf, src, si)"
  by (cases src) simp_all

lemma Decode_unfold:
  "(\<exists>b. Decode src si = Inr b) \<longleftrightarrow>
     (\<exists>out rest nsi b. decodeLoop 0 [0, 0, 0, 0] src si = Inr (out, rest, nsi) \<and> Decode rest nsi = Inr b)"
proof (cases "src = []")
  case True
  then show ?thesis by (simp add: Decode_Nil)
next
  case False
  then show ?thesis
    by (subst Decode.simps) (auto simp: decodeQuantum_def split: sum.splits)
qed

lemma decodeLoop_ok_iff:
  "j < 4 \<Longrightarrow>
     (\<exists>out rest nsi b. decodeLoop j dbuf src si = Inr (out, rest, nsi) \<and> Decode rest nsi = Inr b) \<longleftrightarrow>
     (list_all (\<lambda>c. c \<in> set encodeStd) (filter (\<lambda>c. c \<noteq> CHR 0x0A \<and> c \<noteq> CHR 0x0D) src) \<and>
      (j + length (filter (\<lambda>c. c \<noteq> CHR 0x0A \<and> c \<noteq> CHR 0x0D) src)) mod 4 \<noteq> 1)"
proof (induction src arbitrary: j dbuf si)
  case Nil
  then have "j = 0 \<or> j = 1 \<or> j = 2 \<or> j = 3" by arith
  then show ?case by (auto simp: Decode_Nil)
next
  case (Cons c src)
  let ?nn = "\<lambda>c. c \<noteq> CHR 0x0A \<and> c \<noteq> CHR 0x0D"
  consider (sym) "c \<in> set encodeStd" | (nl) "c \<notin> set encodeStd" "\<not> ?nn c" | (bad) "c \<notin> set encodeStd" "?nn c"
    by blast
  then show ?case
  proof cases
    case sym
    then have dm: "decodeMap c \<noteq> 0xFF" by (simp add: decodeMap_valid_iff)
    from sym have nn: "?nn c" using newline_not_symbol by auto
    have step: "decodeLoop j dbuf (c # src) si = decodeLoop (j + 1) (dbuf[j := decodeMap c]) src (si + 1)"
      using Cons.prems dm by simp
    show ?thesis
    proof (cases "j + 1 < 4")
      case True
      from Cons.IH[OF True, of "dbuf[j := decodeMap c]" "si + 1"] sym nn
      show ?thesis by (simp add: step del: decodeLoop.simps)
    next
      case False
      with Cons.prems have j: "j + 1 = 4" by simp
      have full: "decodeLoop (j + 1) (dbuf[j := decodeMap c]) src (si + 1) =
                    Inr (assemble 4 (dbuf[j := decodeMap c]), src, si + 1)"
        unfolding j by (rule decodeLoop_full)
      have "(\<exists>out rest nsi b. decodeLoop j dbuf (c # src) si = Inr (out, rest, nsi) \<and> Decode rest nsi = Inr b)
              \<longleftrightarrow> (\<exists>b. Decode src (si + 1) = Inr b)"
        unfolding step full by simp
      also have "\<dots> \<longleftrightarrow> (list_all (\<lambda>c. c \<in> set encodeStd) (filter ?nn src) \<and>
                      (0 + length (filter ?nn src)) mod 4 \<noteq> 1)"
        unfolding Decode_unfold by (rule Cons.IH) simp
      also have "\<dots> \<longleftrightarrow> (list_all (\<lambda>c. c \<in> set encodeStd) (filter ?nn (c # src)) \<and>
                      (j + length (filter ?nn (c # src))) mod 4 \<noteq> 1)"
      proof -
        from j have "j = 3" by simp
        then have "(j + length (filter ?nn (c # src))) mod 4 = length (filter ?nn src) mod 4"
          using nn by simp
        then show ?thesis using sym nn by simp
      qed
      finally show ?thesis .
    qed
  next
    case nl
    then have dm: "decodeMap c = 0xFF" by (simp add: decodeMap_miss)
    have step: "decodeLoop j dbuf (c # src) si = decodeLoop j dbuf src (si + 1)"
      using Cons.prems dm nl by auto
    from nl have f: "filter ?nn (c # src) = filter ?nn src" by auto
    from Cons.IH[OF Cons.prems, of dbuf "si + 1"]
    show ?thesis unfolding step f .
  next
    case bad
    then have dm: "decodeMap c = 0xFF" by (simp add: decodeMap_miss)
    have step: "decodeLoop j dbuf (c # src) si = Inl (CorruptInputError si)"
      using Cons.prems dm bad by auto
    show ?thesis using bad by (simp add: step del: decodeLoop.simps)
  qed
qed

lemma DecodeString_ok_iff: "(\<exists>b. DecodeString s = Inr b) \<longleftrightarrow> valid_raw_std s"
  unfolding DecodeString_def Decode_unfold valid_raw_std_def Let_def
  using decodeLoop_ok_iff[of 0 "[0, 0, 0, 0]" s 0] by simp

lemma decodeLoop_error: "decodeLoop j dbuf src si = Inl e \<Longrightarrow> \<exists>n. e = CorruptInputError n"
proof (induction j dbuf src si rule: decodeLoop.induct)
  case (1 j dbuf si)
  then show ?case by (auto split: if_splits)
next
  case (2 j dbuf c src si)
  show ?case
  proof (cases "4 \<le> j")
    case True
    with 2 show ?thesis by simp
  next
    case False
    with 2 show ?thesis by (fastforce simp: Let_def split: if_splits)
  qed
qed

lemma Decode_error: "Decode src si = Inl e \<Longrightarrow> \<exists>n. e = CorruptInputError n"
proof (induction src si rule: Decode.induct)
  case (1 src si)
  show ?case
  proof (cases "src = []")
    case True
    with "1.prems" show ?thesis by (simp add: Decode_Nil)
  next
    case False
    show ?thesis
    proof (cases "decodeQuantum src si")
      case (Inl e')
      with False "1.prems" have "e = e'" by (subst (asm) Decode.simps) simp
      with Inl show ?thesis using decodeLoop_error by (auto simp: decodeQuantum_def)
    next
      case (Inr q)
      obtain out rest nsi where q: "q = (out, rest, nsi)" by (cases q) auto
      with False Inr "1.prems" have "Decode rest nsi = Inl e"
        by (subst (asm) Decode.simps) (simp split: sum.splits)
      with "1.IH"[OF False Inr, of out "(rest, nsi)" rest nsi] q show ?thesis by simp
    qed
  qed
qed

lemma DecodeString_error: "DecodeString s = Inl e \<Longrightarrow> \<exists>n. e = CorruptInputError n"
  unfolding DecodeString_def by (rule Decode_error)

subsection \<open>ParseReferenceID\<close>

lemma ParseReferenceID_cases:
  "ParseReferenceID s =
     (case DecodeString s of
        Inl err \<Rightarrow> Inl (Wrap err errDecode)
      | Inr b \<Rightarrow> if length (Split b sep) \<noteq> 4 then Inl (New errMalformed)
                 else Inr \<lparr>ReferenceID.APIVersion = Split b sep ! 0, Kind = Split b sep ! 1,
                           Namespace = Split b sep ! 2, Name = Split b sep ! 3\<rparr>)"
  by (simp add: ParseReferenceID_def Let_def at_index_def split: sum.splits)

text \<open>
  C1. A reference whose four fields are free of the separator \<open>|\<close> is what parsing its
  string form returns, with no error.
\<close>

theorem ParseReferenceID_String:
  assumes "sep \<notin> set (ReferenceID.APIVersion r)" and "sep \<notin> set (ReferenceID.Kind r)"
    and "sep \<notin> set (ReferenceID.Namespace r)" and "sep \<notin> set (ReferenceID.Name r)"
  shows "ParseReferenceID (String r) = Inr r"
proof -
  have "DecodeString (String r) =
          Inr (ReferenceID.APIVersion r @ [sep] @ ReferenceID.Kind r @ [sep] @
               ReferenceID.Namespace r @ [sep] @ ReferenceID.Name r)"
    by (simp only: DecodeString_def String_def EncodeToString_def Decode_Encode)
  then show ?thesis
    by (simp add: ParseReferenceID_cases Split_four[OF assms] del: append.simps)
qed

theorem ParseReferenceID_String_witness:
  "ParseReferenceID
     (String \<lparr>ReferenceID.APIVersion = ''a/v1'', Kind = ''Foo'', Namespace = ''ns'', Name = ''bar''\<rparr>)
     = Inr \<lparr>ReferenceID.APIVersion = ''a/v1'', Kind = ''Foo'', Namespace = ''ns'', Name = ''bar''\<rparr>"
  using ParseReferenceID_String
    [of "\<lparr>ReferenceID.APIVersion = ''a/v1'', Kind = ''Foo'', Namespace = ''ns'', Name = ''bar''\<rparr>"]
  by (simp add: sep_def)

text \<open>
  C6. \<open>ParseReferenceID\<close> never panics. It fails with the decode error exactly when the
  input is not valid unpadded base64 (as the decoder reads it: line feeds and carriage
  returns are skipped, every other byte must be a symbol of the alphabet, and the number
  of symbols must not be 1 modulo 4). It fails with the malformed-id error exactly when
  the input is valid and the decoded bytes do not split into 4 parts, and it succeeds
  exactly when the input is valid and the decoded bytes hold exactly three separators.
\<close>

theorem ParseReferenceID_outcomes:
  "ParseReferenceID s \<noteq> Inl RuntimePanic \<and>
   ((\<exists>e. ParseReferenceID s = Inl (Wrap (CorruptInputError e) errDecode)) \<longleftrightarrow> \<not> valid_raw_std s) \<and>
   (ParseReferenceID s = Inl (New errMalformed) \<longleftrightarrow>
      valid_raw_std s \<and> (\<exists>b. DecodeString s = Inr b \<and> length (Split b sep) \<noteq> 4)) \<and>
   ((\<exists>r. ParseReferenceID s = Inr r) \<longleftrightarrow>
      valid_raw_std s \<and> (\<exists>b. DecodeString s = Inr b \<and> count_list b sep = 3))"
proof (cases "DecodeString s")
  case (Inl e)
  then have nv: "\<not> valid_raw_std s" using DecodeString_ok_iff[of s] by simp
  from Inl obtain n where "e = CorruptInputError n"
    using DecodeString_error[of s e] by blast
  with Inl nv show ?thesis by (simp add: ParseReferenceID_cases)
next
  case (Inr b)
  then have "valid_raw_std s" using DecodeString_ok_iff[of s] by simp
  with Inr show ?thesis by (simp add: ParseReferenceID_cases length_Split)
qed

lemma DecodeString_example: "DecodeString ''YS92MXxGb298bnN8YmFy'' = Inr ''a/v1|Foo|ns|bar''"
proof -
  have "Encode ''a/v1|Foo|ns|bar'' = ''YS92MXxGb298bnN8YmFy''"
    by (simp add: encode_def encodeStd_def)
  then show ?thesis
    using Decode_Encode[of "''a/v1|Foo|ns|bar''" 0] by (simp add: DecodeString_def)
qed

theorem ParseReferenceID_outcomes_witness:
  "(\<not> valid_raw_std ''!'' \<and> (\<exists>e. ParseReferenceID ''!'' = Inl (Wrap (CorruptInputError e) errDecode))) \<and>
   (valid_raw_std ''YS92MXxGb298bnN8YmFy'' \<and> (\<exists>r. ParseReferenceID ''YS92MXxGb298bnN8YmFy'' = Inr r))"
proof -
  have a: "\<not> valid_raw_std ''!''"
    by (simp add: valid_raw_std_def encodeStd_def)
  have b: "valid_raw_std ''YS92MXxGb298bnN8YmFy''"
    using DecodeString_ok_iff[of "''YS92MXxGb298bnN8YmFy''"] DecodeString_example by simp
  have c: "count_list ''a/v1|Foo|ns|bar'' sep = 3"
    by (simp add: sep_def)
  show ?thesis
    using ParseReferenceID_outcomes[of "''!''"] ParseReferenceID_outcomes[of "''YS92MXxGb298bnN8YmFy''"]
      a b c DecodeString_example
    by simp
qed

section \<open>Properties of Revisions\<close>

lemmas example_defs = example_externals_def revision_def example_candidates_def example_client_def
  example_parent_def GetControllerOf_def BoolPtrDerefOr_def PackageRevisionActive_def

lemma Revisions_loop_skip:
  "\<not> passes obj active cr \<Longrightarrow>
     Revisions_loop x obj limit active (cr # items) out = Revisions_loop x obj limit active items out"
  by (auto simp: passes_def BoolPtrDerefOr_def split: option.splits if_splits)

lemma Revisions_loop_keep:
  "passes obj active cr \<Longrightarrow>
     Revisions_loop x obj limit active (cr # items) out =
       (if (case limit of None \<Rightarrow> False | Some l \<Rightarrow> l < Count out + 1)
        then Revisions_loop x obj limit active items (out\<lparr>Count := Count out + 1\<rparr>)
        else case GetConfigurationRevision x cr of
               Inl err \<Rightarrow> Inl (Wrap err ''cannot model configuration revision'')
             | Inr i \<Rightarrow>
                 Revisions_loop x obj limit active items
                   (out\<lparr>Count := Count out + 1, Items := Items out @ [i]\<rparr>))"
  by (auto simp: passes_def BoolPtrDerefOr_def Let_def split: option.splits if_splits sum.splits)

lemma Revisions_loop_filter:
  "Revisions_loop x obj limit active items out =
     Revisions_loop x obj limit active (filter (passes obj active) items) out"
proof (induction items arbitrary: out)
  case Nil
  show ?case by simp
next
  case (Cons cr items)
  show ?case
  proof (cases "passes obj active cr")
    case True
    then show ?thesis
      by (simp add: Revisions_loop_keep Cons.IH[symmetric] del: Revisions_loop.simps split: sum.splits)
  next
    case False
    then show ?thesis
      by (simp add: Revisions_loop_skip Cons.IH del: Revisions_loop.simps)
  qed
qed

lemma Revisions_loop_pass:
  "\<forall>cr \<in> set items. passes obj active cr \<Longrightarrow>
     Revisions_loop x obj limit active items out =
       (case model_all (GetConfigurationRevision x)
               (page (map_option (\<lambda>l. l - Count out) limit) items) of
          Inl err \<Rightarrow> Inl (Wrap err ''cannot model configuration revision'')
        | Inr is \<Rightarrow> Inr (out\<lparr>Count := Count out + int (length items), Items := Items out @ is\<rparr>))"
proof (induction items arbitrary: out)
  case Nil
  show ?case by (simp add: page_def split: option.splits)
next
  case (Cons cr items)
  then have p: "passes obj active cr" and ps: "\<forall>cr \<in> set items. passes obj active cr" by simp_all
  note IH = Cons.IH[OF ps]
  show ?case
  proof (cases "case limit of None \<Rightarrow> False | Some l \<Rightarrow> l < Count out + 1")
    case True
    then obtain l where l: "limit = Some l" "l < Count out + 1" by (auto split: option.splits)
    then have "nat (l - Count out) = 0" "nat (l - (Count out + 1)) = 0" by simp_all
    with l have pg: "page (map_option (\<lambda>l. l - Count out) limit) (cr # items) = []"
      "page (map_option (\<lambda>l. l - (Count out + 1)) limit) items = []"
      by (simp_all add: page_def)
    have "Revisions_loop x obj limit active (cr # items) out =
            Revisions_loop x obj limit active items (out\<lparr>Count := Count out + 1\<rparr>)"
      using True by (simp add: Revisions_loop_keep[OF p] del: Revisions_loop.simps)
    also have "\<dots> = Inr (out\<lparr>Count := Count out + int (length (cr # items)), Items := Items out @ []\<rparr>)"
      by (simp add: IH pg)
    finally show ?thesis by (simp add: pg)
  next
    case False
    have pg: "page (map_option (\<lambda>l. l - Count out) limit) (cr # items) =
              cr # page (map_option (\<lambda>l. l - (Count out + 1)) limit) items"
    proof (cases limit)
      case None
      then show ?thesis by (simp add: page_def)
    next
      case (Some l)
      with False have "Count out + 1 \<le> l" by simp
      then have "nat (l - Count out) = Suc (nat (l - (Count out + 1)))" by arith
      with Some show ?thesis by (simp add: page_def)
    qed
    show ?thesis
      using False
      by (simp add: Revisions_loop_keep[OF p] IH pg del: Revisions_loop.simps split: sum.splits)
  qed
qed

lemma Revisions_eq:
  assumes "client_List c T_ConfigurationRevision = Inr cands"
  shows "Revisions x (Inr c) obj limit active =
     (case model_all (GetConfigurationRevision x) (page limit (filter (passes obj active) cands)) of
        Inl err \<Rightarrow> Inl (Wrap err ''cannot model configuration revision'')
      | Inr is \<Rightarrow> Inr \<lparr>Items = is, Count = int (length (filter (passes obj active) cands))\<rparr>)"
proof -
  have m: "map_option (\<lambda>l. l) limit = limit" by (cases limit) simp_all
  have "Revisions x (Inr c) obj limit active =
          Revisions_loop x obj limit active (filter (passes obj active) cands) \<lparr>Items = [], Count = 0\<rparr>"
    using assms Revisions_loop_filter[of x obj limit active cands] by (simp add: Revisions_def)
  also have "\<dots> = (case model_all (GetConfigurationRevision x) (page limit (filter (passes obj active) cands)) of
        Inl err \<Rightarrow> Inl (Wrap err ''cannot model configuration revision'')
      | Inr is \<Rightarrow> Inr \<lparr>Items = is, Count = int (length (filter (passes obj active) cands))\<rparr>)"
    by (subst Revisions_loop_pass) (simp_all add: m split: sum.splits)
  finally show ?thesis .
qed

lemma model_all_Inr: "model_all f xs = Inr is \<Longrightarrow> map Inr is = map f xs"
  by (induction xs arbitrary: "is") (auto split: sum.splits)

lemma model_all_Inl: "x \<in> set xs \<Longrightarrow> f x = Inl e \<Longrightarrow> \<exists>e'. model_all f xs = Inl e'"
  by (induction xs) (auto split: sum.splits)

lemma model_all_cong: "(\<And>x. x \<in> set xs \<Longrightarrow> f x = g x) \<Longrightarrow> model_all f xs = model_all g xs"
  by (induction xs) (auto split: sum.splits)

text \<open>
  C2. Whatever the limit, when \<open>Revisions\<close> returns a connection its \<open>Count\<close> is the number
  of candidates whose controller reference has the parent's UID and that pass the
  active-state filter. The excluded candidates are neither counted nor modelled: the
  call gives what it gives on the backend list without them, and it does not depend on
  what modelling does to them.
\<close>

theorem Revisions_Count:
  fixes x :: "('a, 't, 'm) externals"
  assumes "client_List c T_ConfigurationRevision = Inr cands"
    and "Revisions x (Inr c) obj limit active = Inr out"
  shows "Count out = int (length (filter (passes obj active) cands)) \<and>
         Revisions x (Inr c) obj limit active =
           Revisions x (Inr (c\<lparr>client_List := \<lambda>t. Inr (filter (passes obj active) cands)\<rparr>)) obj limit active \<and>
         (\<forall>x' :: ('a, 't, 'm) externals. (\<forall>cr \<in> set cands. passes obj active cr \<longrightarrow>
                   GetConfigurationRevision x' cr = GetConfigurationRevision x cr) \<longrightarrow>
               Revisions x' (Inr c) obj limit active = Revisions x (Inr c) obj limit active)"
proof (intro conjI allI impI)
  show "Count out = int (length (filter (passes obj active) cands))"
    using assms(2) unfolding Revisions_eq[OF assms(1)] by (auto split: sum.splits)
next
  let ?c' = "c\<lparr>client_List := \<lambda>t. Inr (filter (passes obj active) cands)\<rparr>"
  have l: "client_List ?c' T_ConfigurationRevision = Inr (filter (passes obj active) cands)" by simp
  show "Revisions x (Inr c) obj limit active = Revisions x (Inr ?c') obj limit active"
    unfolding Revisions_eq[OF assms(1), of x obj limit active] Revisions_eq[OF l, of x obj limit active]
    by (simp cong: sum.case_cong)
next
  fix x' :: "('a, 't, 'm) externals"
  assume a: "\<forall>cr \<in> set cands. passes obj active cr \<longrightarrow>
               GetConfigurationRevision x' cr = GetConfigurationRevision x cr"
  have "set (page limit (filter (passes obj active) cands)) \<subseteq> set (filter (passes obj active) cands)"
    by (auto simp: page_def split: option.splits dest: in_set_takeD)
  with a have "model_all (GetConfigurationRevision x') (page limit (filter (passes obj active) cands)) =
          model_all (GetConfigurationRevision x) (page limit (filter (passes obj active) cands))"
    by (intro model_all_cong) auto
  then show "Revisions x' (Inr c) obj limit active = Revisions x (Inr c) obj limit active"
    unfolding Revisions_eq[OF assms(1)] by simp
qed

theorem Revisions_Count_witness:
  "Revisions example_externals (Inr (example_client example_candidates)) example_parent (Some 2) None =
     Inr \<lparr>Items = [''r1'', ''r2''], Count = 3\<rparr> \<and>
   length (filter (passes example_parent None) example_candidates) = 3"
proof -
  have l: "client_List (example_client example_candidates) T_ConfigurationRevision = Inr example_candidates"
    by (simp add: example_client_def)
  have r: "Revisions example_externals (Inr (example_client example_candidates)) example_parent (Some 2) None =
     Inr \<lparr>Items = [''r1'', ''r2''], Count = 3\<rparr>"
    by (simp add: Revisions_def example_defs)
  from Revisions_Count[OF l r] r show ?thesis by simp
qed

text \<open>
  C3. When \<open>Revisions\<close> returns a connection, its items are the models of the first
  surviving candidates in backend list order; there are \<open>min(count, limit)\<close> of them for
  a limit that is not negative, and \<open>count\<close> of them without a limit.
\<close>

theorem Revisions_Items:
  assumes "client_List c T_ConfigurationRevision = Inr cands"
    and "Revisions x (Inr c) obj limit active = Inr out"
  shows "map Inr (Items out) =
           map (GetConfigurationRevision x) (page limit (filter (passes obj active) cands)) \<and>
         (limit = None \<longrightarrow> int (length (Items out)) = Count out) \<and>
         (\<forall>l. limit = Some l \<and> 0 \<le> l \<longrightarrow> int (length (Items out)) = min (Count out) l)"
proof -
  let ?survivors = "filter (passes obj active) cands"
  from assms(2) obtain "is" where m: "model_all (GetConfigurationRevision x) (page limit ?survivors) = Inr is"
    and out: "out = \<lparr>Items = is, Count = int (length ?survivors)\<rparr>"
    unfolding Revisions_eq[OF assms(1)] by (auto split: sum.splits)
  from model_all_Inr[OF m] have items: "map Inr is = map (GetConfigurationRevision x) (page limit ?survivors)" .
  then have len: "length is = length (page limit ?survivors)"
    by (metis length_map)
  have "limit = None \<longrightarrow> int (length (Items out)) = Count out"
    by (simp add: len out page_def)
  moreover have "\<forall>l. limit = Some l \<and> 0 \<le> l \<longrightarrow> int (length (Items out)) = min (Count out) l"
    by (auto simp: len out page_def)
  ultimately show ?thesis using items by (simp add: out)
qed

theorem Revisions_Items_witness:
  "Revisions example_externals (Inr (example_client example_candidates)) example_parent (Some 2) None =
     Inr \<lparr>Items = [''r1'', ''r2''], Count = 3\<rparr> \<and>
   page (Some 2) (filter (passes example_parent None) example_candidates) =
     [revision ''P'' ''Active'' ''r1'', revision ''P'' ''Inactive'' ''r2''] \<and>
   int (length [''r1'', ''r2'']) = min 3 2"
proof -
  have l: "client_List (example_client example_candidates) T_ConfigurationRevision = Inr example_candidates"
    by (simp add: example_client_def)
  have r: "Revisions example_externals (Inr (example_client example_candidates)) example_parent (Some 2) None =
     Inr \<lparr>Items = [''r1'', ''r2''], Count = 3\<rparr>"
    by (simp add: Revisions_def example_defs)
  have p: "page (Some 2) (filter (passes example_parent None) example_candidates) =
     [revision ''P'' ''Active'' ''r1'', revision ''P'' ''Inactive'' ''r2'']"
    by (simp add: page_def passes_def example_defs)
  from Revisions_Items[OF l r] r p show ?thesis by simp
qed

text \<open>
  C4. When modelling fails for a candidate destined for the page, \<open>Revisions\<close> returns an
  error, the wrapped modelling error, and no connection.
\<close>

theorem Revisions_fail_fast:
  assumes "client_List c T_ConfigurationRevision = Inr cands"
    and "cr \<in> set (page limit (filter (passes obj active) cands))"
    and "GetConfigurationRevision x cr = Inl e"
  shows "\<exists>e'. Revisions x (Inr c) obj limit active = Inl (Wrap e' ''cannot model configuration revision'')"
proof -
  from model_all_Inl[of cr _ "GetConfigurationRevision x" e, OF assms(2,3)] obtain e' where
    "model_all (GetConfigurationRevision x) (page limit (filter (passes obj active) cands)) = Inl e'"
    by blast
  then show ?thesis unfolding Revisions_eq[OF assms(1)] by simp
qed

theorem Revisions_fail_fast_witness:
  "revision ''P'' ''Active'' ''bad'' \<in>
     set (page (Some 2) (filter (passes example_parent None) example_candidates_bad)) \<and>
   GetConfigurationRevision example_externals (revision ''P'' ''Active'' ''bad'') = Inl (New ''cannot marshal JSON'') \<and>
   Revisions example_externals (Inr (example_client example_candidates_bad)) example_parent (Some 2) None =
     Inl (Wrap (New ''cannot marshal JSON'') ''cannot model configuration revision'')"
proof -
  have l: "client_List (example_client example_candidates_bad) T_ConfigurationRevision = Inr example_candidates_bad"
    by (simp add: example_client_def)
  have p: "revision ''P'' ''Active'' ''bad'' \<in>
     set (page (Some 2) (filter (passes example_parent None) example_candidates_bad))"
    by (simp add: page_def passes_def example_defs example_candidates_bad_def)
  have g: "GetConfigurationRevision example_externals (revision ''P'' ''Active'' ''bad'') = Inl (New ''cannot marshal JSON'')"
    by (simp add: example_defs)
  have r: "Revisions example_externals (Inr (example_client example_candidates_bad)) example_parent (Some 2) None =
     Inl (Wrap (New ''cannot marshal JSON'') ''cannot model configuration revision'')"
    by (simp add: Revisions_def example_defs example_candidates_bad_def)
  from Revisions_fail_fast[OF l p g] p g r show ?thesis by simp
qed

text \<open>
  C9. With a negative limit \<open>Revisions\<close> returns no items, and \<open>Count\<close> is still the number
  of candidates that pass both filters.
\<close>

theorem Revisions_negative_limit:
  assumes "client_List c T_ConfigurationRevision = Inr cands" and "l < 0"
  shows "Revisions x (Inr c) obj (Some l) active =
           Inr \<lparr>Items = [], Count = int (length (filter (passes obj active) cands))\<rparr>"
  using assms(2) unfolding Revisions_eq[OF assms(1)] by (simp add: page_def)

theorem Revisions_negative_limit_witness:
  "Revisions example_externals (Inr (example_client example_candidates)) example_parent (Some (- 1)) None =
     Inr \<lparr>Items = [], Count = 3\<rparr>"
proof -
  have l: "client_List (example_client example_candidates) T_ConfigurationRevision = Inr example_candidates"
    by (simp add: example_client_def)
  have n: "length (filter (passes example_parent None) example_candidates) = 3"
    by (simp add: passes_def example_defs)
  from Revisions_negative_limit[OF l, of "- 1" example_externals example_parent None] n
  show ?thesis by simp
qed

section \<open>Properties of the classifier and of the constructors\<close>

lemma GetKubernetesResource_first_match:
  "first_match (rules x) u = Some (GetKubernetesResource x u)"
  by (simp add: rules_def GetKubernetesResource_def convert_and_model_def)

lemma model_as_shape: "model_as K msg res = Inr r \<Longrightarrow> \<exists>m. r = K m"
  by (auto simp: model_as_def split: sum.splits)

text \<open>
  C5. The classifier is the ordered list of rules with the first match deciding: managed,
  provider config, composite, the exact package kinds, generic. In particular an object
  that satisfies the managed heuristic and also has the group, version and kind of a
  known package kind is classified by the heuristic: what comes back is the managed
  resource built from it (or the error of building it), never another shape.
\<close>

theorem classifier_order:
  "first_match (rules x) u = Some (GetKubernetesResource x u) \<and>
   (ProbablyManaged x u \<and> GroupVersionKind u \<in> fst ` set package_kinds \<longrightarrow>
      GetKubernetesResource x u =
        model_as K_ManagedResource ''cannot model managed resource'' (GetManagedResource x u) \<and>
      (\<forall>r. GetKubernetesResource x u = Inr r \<longrightarrow> (\<exists>m. r = K_ManagedResource m)))"
proof (intro conjI impI)
  show "first_match (rules x) u = Some (GetKubernetesResource x u)"
    by (rule GetKubernetesResource_first_match)
next
  assume "ProbablyManaged x u \<and> GroupVersionKind u \<in> fst ` set package_kinds"
  then show m: "GetKubernetesResource x u =
        model_as K_ManagedResource ''cannot model managed resource'' (GetManagedResource x u)"
    by (simp add: GetKubernetesResource_def)
  show "\<forall>r. GetKubernetesResource x u = Inr r \<longrightarrow> (\<exists>m. r = K_ManagedResource m)"
    unfolding m using model_as_shape by blast
qed

lemma example_overlap_gvk: "GroupVersionKind example_overlap = ProviderGroupVersionKind"
  by (simp add: GroupVersionKind_def GetAPIVersion_def GetKind_def ParseGroupVersion_def
      example_overlap_def blank_def ProviderGroupVersionKind_def pkgv1_Group_def WithKind_def)

theorem classifier_order_witness:
  "ProbablyManaged example_externals example_overlap \<and>
   GroupVersionKind example_overlap = ProviderGroupVersionKind \<and>
   GetKubernetesResource example_externals example_overlap = Inr (K_ManagedResource ''p'')"
proof -
  have a: "ProbablyManaged example_externals example_overlap"
    by (simp add: example_externals_def example_overlap_def blank_def)
  have b: "GroupVersionKind example_overlap \<in> fst ` set package_kinds"
    by (simp add: example_overlap_gvk package_kinds_def)
  have c: "GetManagedResource example_externals example_overlap = Inr ''p''"
    by (simp add: example_externals_def example_overlap_def blank_def)
  from classifier_order[of example_externals example_overlap] a b c example_overlap_gvk
  show ?thesis by (simp add: model_as_def)
qed

lemma model_as_not_generic:
  "(\<And>m. K m \<noteq> K_GenericResource g) \<Longrightarrow> model_as K msg res \<noteq> Inr (K_GenericResource g)"
  by (cases res) (auto simp: model_as_def)

lemma package_kinds_distinct:
  "ProviderGroupVersionKind \<noteq> ProviderRevisionGroupVersionKind"
  "ProviderGroupVersionKind \<noteq> ConfigurationGroupVersionKind"
  "ProviderGroupVersionKind \<noteq> ConfigurationRevisionGroupVersionKind"
  "ProviderGroupVersionKind \<noteq> CompositeResourceDefinitionGroupVersionKind"
  "ProviderRevisionGroupVersionKind \<noteq> ConfigurationGroupVersionKind"
  "ProviderRevisionGroupVersionKind \<noteq> ConfigurationRevisionGroupVersionKind"
  "ProviderRevisionGroupVersionKind \<noteq> CompositeResourceDefinitionGroupVersionKind"
  "ConfigurationGroupVersionKind \<noteq> ConfigurationRevisionGroupVersionKind"
  "ConfigurationGroupVersionKind \<noteq> CompositeResourceDefinitionGroupVersionKind"
  "ConfigurationRevisionGroupVersionKind \<noteq> CompositeResourceDefinitionGroupVersionKind"
  by (simp_all add: ProviderGroupVersionKind_def ProviderRevisionGroupVersionKind_def
      ConfigurationGroupVersionKind_def ConfigurationRevisionGroupVersionKind_def
      CompositeResourceDefinitionGroupVersionKind_def extv1_CompositeResourceDefinitionKind_def)

text \<open>
  C8, as stated, fails on an object that an earlier heuristic claims: the example object
  has the group, version and kind of \<open>Provider\<close>, its conversion to a \<open>Provider\<close> fails,
  and the classifier returns it as a managed resource without an error.
\<close>

theorem conversion_failure_counterexample:
  "GroupVersionKind example_overlap = ProviderGroupVersionKind \<and>
   convert example_externals example_overlap T_Provider =
     Inl (Wrap (New ''spec.package: expected string'') ''could not convert unstructured object'') \<and>
   GetKubernetesResource example_externals example_overlap = Inr (K_ManagedResource ''p'')"
proof -
  have "convert example_externals example_overlap T_Provider =
     Inl (Wrap (New ''spec.package: expected string'') ''could not convert unstructured object'')"
    by (simp add: convert_def example_externals_def example_overlap_def blank_def)
  moreover have "GetKubernetesResource example_externals example_overlap = Inr (K_ManagedResource ''p'')"
    by (simp add: GetKubernetesResource_def model_as_def example_externals_def example_overlap_def blank_def)
  ultimately show ?thesis using example_overlap_gvk by simp
qed

text \<open>
  C8, amended. For an object whose group, version and kind are those of a known package
  kind and that none of the three heuristics accepts, a failing conversion makes the
  classifier return an error that wraps the conversion error; and no object with such a
  group, version and kind is returned as a \<open>GenericResource\<close>.
\<close>

theorem conversion_failure_is_error:
  assumes "(GroupVersionKind u, ty) \<in> set package_kinds"
  shows "(\<not> ProbablyManaged x u \<and> \<not> ProbablyProviderConfig x u \<and> \<not> ProbablyComposite x u \<and>
          convert x u ty = Inl e \<longrightarrow>
            (\<exists>msg. GetKubernetesResource x u = Inl (Wrap e msg))) \<and>
         (\<forall>g. GetKubernetesResource x u \<noteq> Inr (K_GenericResource g))"
proof (intro conjI impI allI)
  assume "\<not> ProbablyManaged x u \<and> \<not> ProbablyProviderConfig x u \<and> \<not> ProbablyComposite x u \<and>
          convert x u ty = Inl e"
  with assms package_kinds_distinct show "\<exists>msg. GetKubernetesResource x u = Inl (Wrap e msg)"
    by (auto simp: package_kinds_def GetKubernetesResource_def)
next
  fix g
  from assms consider
      (p) "GroupVersionKind u = ProviderGroupVersionKind"
    | (pr) "GroupVersionKind u = ProviderRevisionGroupVersionKind"
    | (c) "GroupVersionKind u = ConfigurationGroupVersionKind"
    | (cr) "GroupVersionKind u = ConfigurationRevisionGroupVersionKind"
    | (xrd) "GroupVersionKind u = CompositeResourceDefinitionGroupVersionKind"
    by (auto simp: package_kinds_def)
  then show "GetKubernetesResource x u \<noteq> Inr (K_GenericResource g)"
  proof cases
    case p
    then show ?thesis
      by (simp add: GetKubernetesResource_def model_as_not_generic split: sum.split)
  next
    case pr
    then show ?thesis
      using package_kinds_distinct
      by (simp add: GetKubernetesResource_def model_as_not_generic split: sum.split)
  next
    case c
    then show ?thesis
      using package_kinds_distinct
      by (simp add: GetKubernetesResource_def model_as_not_generic split: sum.split)
  next
    case cr
    then show ?thesis
      using package_kinds_distinct
      by (simp add: GetKubernetesResource_def model_as_not_generic split: sum.split)
  next
    case xrd
    then show ?thesis
      using package_kinds_distinct
      by (simp add: GetKubernetesResource_def model_as_not_generic split: sum.split)
  qed
qed

theorem conversion_failure_is_error_witness:
  "\<not> ProbablyManaged example_externals example_broken_provider \<and>
   (GroupVersionKind example_broken_provider, T_Provider) \<in> set package_kinds \<and>
   GetKubernetesResource example_externals example_broken_provider =
     Inl (Wrap (Wrap (New ''spec.package: expected string'') ''could not convert unstructured object'')
            ''cannot convert provider'')"
proof -
  have g: "GroupVersionKind example_broken_provider = ProviderGroupVersionKind"
    by (simp add: GroupVersionKind_def GetAPIVersion_def GetKind_def ParseGroupVersion_def
      example_broken_provider_def blank_def ProviderGroupVersionKind_def pkgv1_Group_def WithKind_def)
  have h: "\<not> ProbablyManaged example_externals example_broken_provider"
    "\<not> ProbablyProviderConfig example_externals example_broken_provider"
    "\<not> ProbablyComposite example_externals example_broken_provider"
    by (simp_all add: example_externals_def example_broken_provider_def blank_def)
  have k: "(GroupVersionKind example_broken_provider, T_Provider) \<in> set package_kinds"
    by (simp add: g package_kinds_def)
  have c: "convert example_externals example_broken_provider T_Provider =
     Inl (Wrap (New ''spec.package: expected string'') ''could not convert unstructured object'')"
    by (simp add: convert_def example_externals_def example_broken_provider_def blank_def)
  have r: "GetKubernetesResource example_externals example_broken_provider =
     Inl (Wrap (Wrap (New ''spec.package: expected string'') ''could not convert unstructured object'')
            ''cannot convert provider'')"
    using h g c by (simp add: GetKubernetesResource_def)
  from conversion_failure_is_error[OF k, of example_externals] h k c r show ?thesis by simp
qed

text \<open>
  C7. \<open>GetCompositeResource\<close> leaves the \<open>ID\<close> of its record at the zero value, where
  \<open>GetGenericResource\<close> on the same object fills it with the object's apiVersion, kind,
  namespace and name.
\<close>

theorem GetCompositeResource_ID:
  "map_sum id ID (GetCompositeResource example_externals example_composite) = Inr zero_ReferenceID \<and>
   map_sum id ID (GetGenericResource example_externals example_composite) =
     Inr \<lparr>ReferenceID.APIVersion = ''example.org/v1'', Kind = ''XDatabase'', Namespace = [], Name = ''db''\<rparr> \<and>
   zero_ReferenceID \<noteq>
     \<lparr>ReferenceID.APIVersion = ''example.org/v1'', Kind = ''XDatabase'', Namespace = [], Name = ''db''\<rparr>"
  by (simp add: GetCompositeResource_def GetGenericResource_def example_externals_def
      example_composite_def blank_def zero_ReferenceID_def GetAPIVersion_def GetKind_def
      GetNamespace_def GetName_def)

section \<open>Properties of Objects\<close>

lemma Index_takeWhile: "Index s c = Some m \<Longrightarrow> take m s = takeWhile (\<lambda>x. x \<noteq> c) s"
proof (induction s arbitrary: m)
  case Nil
  then show ?case by simp
next
  case (Cons x xs)
  then show ?case by (auto split: if_splits)
qed

lemma Split_first: "at_index (Split s c) 0 = Inr (takeWhile (\<lambda>x. x \<noteq> c) s)"
proof (cases "Index s c")
  case None
  then have "c \<notin> set s" by (simp add: Index_None_iff)
  then have tw: "takeWhile (\<lambda>x. x \<noteq> c) s = s"
    unfolding takeWhile_eq_all_conv by blast
  have "at_index (Split s c) 0 = Inr s"
    by (simp add: Split_no_sep[OF \<open>c \<notin> set s\<close>] at_index_def)
  then show ?thesis by (simp only: tw)
next
  case (Some m)
  with Index_takeWhile[OF Some] show ?thesis by (subst Split.simps) (simp add: at_index_def)
qed

lemma Objects_loop_skip:
  "\<not> in_group ref \<Longrightarrow> Objects_loop x c limit (ref # refs) out = Objects_loop x c limit refs out"
  by (simp add: Split_first in_group_def)

lemma Objects_loop_over:
  "in_group ref \<Longrightarrow> limit = Some l \<Longrightarrow> l < Count out + 1 \<Longrightarrow>
     Objects_loop x c limit (ref # refs) out = Objects_loop x c limit refs (out\<lparr>Count := Count out + 1\<rparr>)"
  by (simp add: Split_first in_group_def)

lemma Objects_loop_within:
  assumes "in_group ref" and "\<not> (case limit of None \<Rightarrow> False | Some l \<Rightarrow> l < Count out + 1)"
  shows "Objects_loop x c limit (ref # refs) out =
     (if TypedReference.Kind ref = extv1_CompositeResourceDefinitionKind then
        (case client_Get c T_CompositeResourceDefinition (TypedReference.Name ref) of
           Inl err \<Rightarrow> Inl (Wrap err ''cannot get CompositeResourceDefinition'')
         | Inr xrd \<Rightarrow>
             (case GetCompositeResourceDefinition x xrd of
                Inl err \<Rightarrow> Inl (Wrap err ''cannot model composite resource definition'')
              | Inr i \<Rightarrow>
                  Objects_loop x c limit refs
                    (out\<lparr>Count := Count out + 1, Items := Items out @ [K_CompositeResourceDefinition i]\<rparr>)))
      else if TypedReference.Kind ref = extv1_CompositionKind then
        (case client_Get c T_Composition (TypedReference.Name ref) of
           Inl err \<Rightarrow> Inl (Wrap err ''cannot get Composition'')
         | Inr cmp \<Rightarrow>
             (case GetComposition x cmp of
                Inl err \<Rightarrow> Inl (Wrap err ''cannot model composition'')
              | Inr i \<Rightarrow>
                  Objects_loop x c limit refs
                    (out\<lparr>Count := Count out + 1, Items := Items out @ [K_Composition i]\<rparr>)))
      else Objects_loop x c limit refs (out\<lparr>Count := Count out + 1\<rparr>))"
proof (cases limit)
  case None
  with assms(1) show ?thesis
    by (simp add: Split_first in_group_def Let_def cong: sum.case_cong)
next
  case (Some l)
  with assms(2) have "\<not> l < Count out + 1" by simp
  with Some assms(1) show ?thesis
    by (simp add: Split_first in_group_def Let_def cong: sum.case_cong)
qed

lemma Objects_loop_unknown:
  "in_group ref \<Longrightarrow> \<not> (case limit of None \<Rightarrow> False | Some l \<Rightarrow> l < Count out + 1) \<Longrightarrow>
   \<not> known_kind ref \<Longrightarrow>
     Objects_loop x c limit (ref # refs) out = Objects_loop x c limit refs (out\<lparr>Count := Count out + 1\<rparr>)"
  by (simp add: Objects_loop_within known_kind_def del: Objects_loop.simps)

lemma Objects_loop_known:
  "in_group ref \<Longrightarrow> \<not> (case limit of None \<Rightarrow> False | Some l \<Rightarrow> l < Count out + 1) \<Longrightarrow>
   known_kind ref \<Longrightarrow> Objects_loop x c limit (ref # refs) out = Inr out' \<Longrightarrow>
     \<exists>i. Objects_loop x c limit refs (out\<lparr>Count := Count out + 1, Items := Items out @ [i]\<rparr>) = Inr out'"
  by (auto simp: Objects_loop_within known_kind_def simp del: Objects_loop.simps
           split: sum.splits if_splits)

lemma page_Cons_over:
  "limit = Some l \<Longrightarrow> l < n + 1 \<Longrightarrow>
     page (map_option (\<lambda>l. l - n) limit) (r # rs) = [] \<and>
     page (map_option (\<lambda>l. l - (n + 1)) limit) rs = []"
  by (simp add: page_def)

lemma page_Cons_within:
  "\<not> (case limit of None \<Rightarrow> False | Some l \<Rightarrow> l < n + 1) \<Longrightarrow>
     page (map_option (\<lambda>l. l - n) limit) (r # rs) = r # page (map_option (\<lambda>l. l - (n + 1)) limit) rs"
proof (cases limit)
  case None
  then show ?thesis by (simp add: page_def)
next
  case (Some l)
  assume "\<not> (case limit of None \<Rightarrow> False | Some l \<Rightarrow> l < n + 1)"
  with Some have "n + 1 \<le> l" by simp
  then have "nat (l - n) = Suc (nat (l - (n + 1)))" by arith
  with Some show ?thesis by (simp add: page_def)
qed

lemma Objects_loop_Inr:
  "Objects_loop x c limit refs out = Inr out' \<Longrightarrow>
     Count out' = Count out + int (length (filter in_group refs)) \<and>
     length (Items out') = length (Items out) +
       length (filter known_kind (page (map_option (\<lambda>l. l - Count out) limit) (filter in_group refs)))"
proof (induction refs arbitrary: out)
  case Nil
  then show ?case by (simp add: page_def split: option.splits)
next
  case (Cons ref refs)
  show ?case
  proof (cases "in_group ref")
    case False
    with Cons.prems have "Objects_loop x c limit refs out = Inr out'"
      by (simp add: Objects_loop_skip del: Objects_loop.simps)
    from Cons.IH[OF this] False show ?thesis by simp
  next
    case True
    show ?thesis
    proof (cases "case limit of None \<Rightarrow> False | Some l \<Rightarrow> l < Count out + 1")
      case over: True
      then obtain l where l: "limit = Some l" "l < Count out + 1" by (auto split: option.splits)
      from Cons.prems have "Objects_loop x c limit refs (out\<lparr>Count := Count out + 1\<rparr>) = Inr out'"
        by (simp add: Objects_loop_over[OF True l] del: Objects_loop.simps)
      from Cons.IH[OF this] True page_Cons_over[OF l, of ref "filter in_group refs"]
      show ?thesis by simp
    next
      case within: False
      note pg = page_Cons_within[OF within, of ref "filter in_group refs"]
      show ?thesis
      proof (cases "known_kind ref")
        case False
        from Cons.prems have "Objects_loop x c limit refs (out\<lparr>Count := Count out + 1\<rparr>) = Inr out'"
          by (simp add: Objects_loop_unknown[OF True within False] del: Objects_loop.simps)
        from Cons.IH[OF this] True False pg show ?thesis by simp
      next
        case known: True
        from Objects_loop_known[OF True within known Cons.prems] obtain i where
          "Objects_loop x c limit refs (out\<lparr>Count := Count out + 1, Items := Items out @ [i]\<rparr>) = Inr out'"
          by blast
        from Cons.IH[OF this] True known pg show ?thesis by simp
      qed
    qed
  qed
qed

lemma Objects_loop_filter:
  "Objects_loop x c limit refs out = Objects_loop x c limit (filter in_group refs) out"
proof (induction refs arbitrary: out)
  case Nil
  show ?case by simp
next
  case (Cons ref refs)
  show ?case
  proof (cases "in_group ref")
    case False
    then show ?thesis by (simp add: Objects_loop_skip Cons.IH del: Objects_loop.simps)
  next
    case True
    show ?thesis
    proof (cases "case limit of None \<Rightarrow> False | Some l \<Rightarrow> l < Count out + 1")
      case over: True
      then obtain l where l: "limit = Some l" "l < Count out + 1" by (auto split: option.splits)
      show ?thesis
        using True by (simp add: Objects_loop_over[OF True l] Cons.IH del: Objects_loop.simps)
    next
      case within: False
      show ?thesis
        using True
        by (simp add: Objects_loop_within[OF True within] Cons.IH
                 del: Objects_loop.simps cong: sum.case_cong)
    qed
  qed
qed

lemma example_Objects:
  "Objects example_externals (Inr (example_client [])) \<lparr>ObjectRefs = example_refs\<rparr> (Some 5) =
     Inr \<lparr>Items = [K_CompositeResourceDefinition ''xdatabases.example.org''], Count = 2\<rparr>"
  by (simp add: Objects_def example_refs_def Split_first extv1_Group_def
      extv1_CompositeResourceDefinitionKind_def extv1_CompositionKind_def
      example_client_def example_externals_def revision_def)

text \<open>
  C10. When \<open>Objects\<close> returns a connection, \<open>Count\<close> is the number of references whose API
  group is \<open>apiextensions.crossplane.io\<close>, of whatever kind, while the items come only from
  the references of kind \<open>CompositeResourceDefinition\<close> or \<open>Composition\<close> among the counted
  ones within the limit. References outside the group are neither counted nor fetched:
  the call gives what it gives without them. For some input the items are fewer than
  \<open>min(Count, limit)\<close>.
\<close>

theorem Objects_Count:
  fixes x :: "('a, 't, 'm) externals"
  shows "(Objects x (Inr c) obj limit = Inr out \<longrightarrow>
            Count out = int (length (filter in_group (ObjectRefs obj))) \<and>
            length (Items out) =
              length (filter known_kind (page limit (filter in_group (ObjectRefs obj))))) \<and>
         Objects x (Inr c) obj limit =
           Objects x (Inr c) (obj\<lparr>ObjectRefs := filter in_group (ObjectRefs obj)\<rparr>) limit \<and>
         (\<exists>obj' l out'.
            Objects example_externals (Inr (example_client [])) obj' (Some l) = Inr out' \<and>
            int (length (Items out')) < min (Count out') l)"
proof (intro conjI impI)
  assume "Objects x (Inr c) obj limit = Inr out"
  then have l: "Objects_loop x c limit (ObjectRefs obj) \<lparr>Items = [], Count = 0\<rparr> = Inr out"
    by (simp add: Objects_def)
  have m: "map_option (\<lambda>l. l) limit = limit" by (cases limit) simp_all
  from Objects_loop_Inr[OF l]
  show "Count out = int (length (filter in_group (ObjectRefs obj)))"
    and "length (Items out) = length (filter known_kind (page limit (filter in_group (ObjectRefs obj))))"
    by (simp_all add: m)
next
  show "Objects x (Inr c) obj limit =
          Objects x (Inr c) (obj\<lparr>ObjectRefs := filter in_group (ObjectRefs obj)\<rparr>) limit"
    using Objects_loop_filter[of x c limit "ObjectRefs obj"] by (simp add: Objects_def)
next
  have "int (length (Items \<lparr>Items = [K_CompositeResourceDefinition ''xdatabases.example.org''], Count = 2\<rparr>))
          < min (Count \<lparr>Items = [K_CompositeResourceDefinition ''xdatabases.example.org''], Count = 2\<rparr>) 5"
    by simp
  with example_Objects
  show "\<exists>obj' l out'.
            Objects example_externals (Inr (example_client [])) obj' (Some l) = Inr out' \<and>
            int (length (Items out')) < min (Count out') l"
    by blast
qed

theorem Objects_Count_witness:
  "Objects example_externals (Inr (example_client [])) \<lparr>ObjectRefs = example_refs\<rparr> (Some 5) =
     Inr \<lparr>Items = [K_CompositeResourceDefinition ''xdatabases.example.org''], Count = 2\<rparr> \<and>
   length (filter in_group example_refs) = 2 \<and>
   length (filter known_kind (page (Some 5) (filter in_group example_refs))) = 1"
  using Objects_Count[of example_externals "example_client []" "\<lparr>ObjectRefs = example_refs\<rparr>" "Some 5"
      "\<lparr>Items = [K_CompositeResourceDefinition ''xdatabases.example.org''], Count = 2\<rparr>"]
    example_Objects
  by simp

end
